theory Spec2Isabelle
  imports Main "HOL-Library.Word" "HOL-Library.Multiset"
begin

unbundle bit_operations_syntax

section \<open>Status codes and raw values\<close>

text \<open>
  Modelled from the spec: the status codes of \<^verbatim>\<open>libpmemkv.h\<close>, which is not among
  the sources.  The spec lists six distinct codes; they carry the names that
  \<^verbatim>\<open>libpmemkv.cc\<close> uses for them.
\<close>

datatype status =
    PMEMKV_STATUS_OK
  | PMEMKV_STATUS_FAILED
  | PMEMKV_STATUS_NOT_FOUND
  | PMEMKV_STATUS_INVALID_ARGUMENT
  | PMEMKV_STATUS_CONFIG_PARSING_ERROR
  | PMEMKV_STATUS_CONFIG_TYPE_ERROR

text \<open>
  A \<^verbatim>\<open>char\<close> of a \<^verbatim>\<open>std::vector<char>\<close> is a byte.  \<^verbatim>\<open>int64_t\<close>, \<^verbatim>\<open>uint64_t\<close>
  and the bit pattern of a \<^verbatim>\<open>double\<close> are 64-bit words; \<open>sint\<close> reads a word as
  \<^verbatim>\<open>int64_t\<close>, \<open>uint\<close> as \<^verbatim>\<open>uint64_t\<close>.  Pointers are 64-bit words too
  (\<^verbatim>\<open>sizeof(void *) = 8\<close>, the LP64 platforms the library is built for).  Arithmetic on
  doubles is not modelled: the container only copies their eight bytes.
\<close>

type_synonym byte = "8 word"
type_synonym pointer = "64 word"

definition sizeof_pointer :: nat where
  "sizeof_pointer = 8"

text \<open>
  Copying an eight-byte object into a byte vector and reading it back
  (\<^verbatim>\<open>std::vector<char> v((char *)&value, (char *)&value + sizeof(value))\<close> and
  \<^verbatim>\<open>*(static_cast<const uint64_t *>(data))\<close>), least significant byte first.
\<close>

definition bytes_of_u64 :: "64 word \<Rightarrow> byte list" where
  "bytes_of_u64 w = map (\<lambda>i. ucast (drop_bit (8 * i) w)) [0..<8]"

fun u64_of_bytes :: "byte list \<Rightarrow> 64 word" where
  "u64_of_bytes [] = 0"
| "u64_of_bytes (b # bs) = ucast b OR push_bit 8 (u64_of_bytes bs)"

text \<open>
  A read of eight bytes at \<^verbatim>\<open>data\<close>.  Every entry tagged \<^verbatim>\<open>INT64\<close>, \<^verbatim>\<open>UINT64\<close>,
  \<^verbatim>\<open>DOUBLE\<close> or \<^verbatim>\<open>OBJECT\<close> is made by a typed put from an eight-byte object, so the
  read stays inside the vector; on a shorter vector the C++ read is out of bounds and
  the value computed here means nothing.
\<close>

definition load_u64 :: "byte list \<Rightarrow> 64 word" where
  "load_u64 data = u64_of_bytes (take 8 data)"

text \<open>The bytes of a C string, without the terminator.\<close>

definition byte_of_char :: "char \<Rightarrow> byte" where
  "byte_of_char c = word_of_nat (of_char c)"

definition bytes_of_string :: "string \<Rightarrow> byte list" where
  "bytes_of_string s = map byte_of_char s"

section \<open>The configuration container\<close>

datatype config_type = STRING | INT64 | UINT64 | DOUBLE | DATA | OBJECT

text \<open>
  A deleter is a function pointer \<^verbatim>\<open>void (*)(void *)\<close>; \<open>None\<close> is \<^verbatim>\<open>nullptr\<close>.
  The one function of this file that is used as a deleter is \<^verbatim>\<open>pmemkv_config_delete\<close>
  itself (for sub-configurations read from JSON); any other callback is known by an
  identifier only.
\<close>

datatype fnptr = Fn_pmemkv_config_delete | Fn_callback nat

record entry =
  e_value :: "byte list"
  e_deleter :: "fnptr option"
  e_type :: config_type

text \<open>
  \<^verbatim>\<open>std::unordered_map<std::string, entry> umap\<close> as an association list with one
  pair per key.  The order of the list stands for the unspecified iteration order of
  the hash table.  \<^verbatim>\<open>insert\<close> adds the pair only where the key is absent and
  otherwise leaves the table as it is; it reports which of the two happened in its
  return value and does not throw.
\<close>

type_synonym pmemkv_config = "(string \<times> entry) list"

definition pmemkv_config_new :: pmemkv_config where
  "pmemkv_config_new = []"

definition umap_find :: "pmemkv_config \<Rightarrow> string \<Rightarrow> entry option" where
  "umap_find umap key = map_of umap key"

definition umap_insert :: "pmemkv_config \<Rightarrow> string \<Rightarrow> entry \<Rightarrow> pmemkv_config" where
  "umap_insert umap key e = (if umap_find umap key = None then umap @ [(key, e)] else umap)"

text \<open>
  \<^verbatim>\<open>pmemkv_config_put\<close>: the status and the container afterwards.  The handler
  \<^verbatim>\<open>catch (...)\<close> answers a failed allocation only (nothing else in the \<^verbatim>\<open>try\<close> block
  throws); memory is taken to be available throughout this theory, so that branch is
  not entered.  The result of \<^verbatim>\<open>insert\<close> is dropped by the source.
\<close>

definition pmemkv_config_put ::
    "pmemkv_config \<Rightarrow> string \<Rightarrow> byte list \<Rightarrow> config_type \<Rightarrow> status \<times> pmemkv_config" where
  "pmemkv_config_put config key v type =
     (PMEMKV_STATUS_OK, umap_insert config key \<lparr>e_value = v, e_deleter = None, e_type = type\<rparr>)"

text \<open>
  \<^verbatim>\<open>pmemkv_config_get\<close>: the status and, on success, what the three out-parameters
  receive (data, size, type).  A caller that passes \<^verbatim>\<open>nullptr\<close> for one of them
  ignores that component.
\<close>

definition pmemkv_config_get ::
    "pmemkv_config \<Rightarrow> string \<Rightarrow> status \<times> (byte list \<times> nat \<times> config_type) option" where
  "pmemkv_config_get config key =
     (case umap_find config key of
        None \<Rightarrow> (PMEMKV_STATUS_NOT_FOUND, None)
      | Some found \<Rightarrow>
          (PMEMKV_STATUS_OK, Some (e_value found, length (e_value found), e_type found)))"

subsection \<open>Typed puts\<close>

definition pmemkv_config_put_data ::
    "pmemkv_config \<Rightarrow> string \<Rightarrow> byte list \<Rightarrow> status \<times> pmemkv_config" where
  "pmemkv_config_put_data config key v = pmemkv_config_put config key v DATA"

definition pmemkv_config_put_object ::
    "pmemkv_config \<Rightarrow> string \<Rightarrow> pointer \<Rightarrow> fnptr option \<Rightarrow> status \<times> pmemkv_config" where
  "pmemkv_config_put_object config key v deleter =
     (PMEMKV_STATUS_OK,
      umap_insert config key
        \<lparr>e_value = bytes_of_u64 v, e_deleter = deleter, e_type = OBJECT\<rparr>)"

definition pmemkv_config_put_int64 ::
    "pmemkv_config \<Rightarrow> string \<Rightarrow> 64 word \<Rightarrow> status \<times> pmemkv_config" where
  "pmemkv_config_put_int64 config key v = pmemkv_config_put config key (bytes_of_u64 v) INT64"

definition pmemkv_config_put_uint64 ::
    "pmemkv_config \<Rightarrow> string \<Rightarrow> 64 word \<Rightarrow> status \<times> pmemkv_config" where
  "pmemkv_config_put_uint64 config key v = pmemkv_config_put config key (bytes_of_u64 v) UINT64"

definition pmemkv_config_put_double ::
    "pmemkv_config \<Rightarrow> string \<Rightarrow> 64 word \<Rightarrow> status \<times> pmemkv_config" where
  "pmemkv_config_put_double config key v = pmemkv_config_put config key (bytes_of_u64 v) DOUBLE"

text \<open>The string is stored with its terminator: \<^verbatim>\<open>length(value) + 1\<close> bytes.\<close>

definition pmemkv_config_put_string ::
    "pmemkv_config \<Rightarrow> string \<Rightarrow> string \<Rightarrow> status \<times> pmemkv_config" where
  "pmemkv_config_put_string config key v =
     pmemkv_config_put config key (bytes_of_string v @ [0]) STRING"

subsection \<open>Typed gets\<close>

text \<open>
  Each getter returns its status and what it wrote to its out-parameter; \<open>None\<close>
  means that the out-parameter was not written.
\<close>

definition pmemkv_config_get_data ::
    "pmemkv_config \<Rightarrow> string \<Rightarrow> status \<times> (byte list \<times> nat) option" where
  "pmemkv_config_get_data config key =
     (case pmemkv_config_get config key of
        (st, None) \<Rightarrow> (st, None)
      | (st, Some (data, value_size, _)) \<Rightarrow> (st, Some (data, value_size)))"

text \<open>
  \<^verbatim>\<open>pmemkv_config_get_object\<close> asks \<^verbatim>\<open>pmemkv_config_get\<close> for data and size, not for the
  type.  Where the key is absent \<^verbatim>\<open>ptr_ptr\<close> was never assigned, and the \<^verbatim>\<open>memcpy\<close> that
  follows reads through it: what reaches the out-parameter then is indeterminate.
\<close>

datatype object_out = Not_written | Pointer_written pointer | Indeterminate

definition pmemkv_config_get_object ::
    "pmemkv_config \<Rightarrow> string \<Rightarrow> status \<times> object_out" where
  "pmemkv_config_get_object config key =
     (case pmemkv_config_get config key of
        (st, Some (ptr_ptr, sz, _)) \<Rightarrow>
          if st = PMEMKV_STATUS_OK \<and> sz \<noteq> sizeof_pointer
          then (PMEMKV_STATUS_CONFIG_TYPE_ERROR, Not_written)
          else (st, Pointer_written (load_u64 ptr_ptr))
      | (st, None) \<Rightarrow> (st, Indeterminate))"

text \<open>
  In \<^verbatim>\<open>uval < std::numeric_limits<int64_t>::max()\<close> the right operand is converted to
  \<^verbatim>\<open>uint64_t\<close>, so the comparison is the unsigned one (\<open><\<close> on words) with
  \<open>2\<^sup>6\<^sup>3 - 1\<close>; \<^verbatim>\<open>sval >= 0\<close> is the signed comparison.
\<close>

definition int64_max :: "64 word" where
  "int64_max = 0x7FFFFFFFFFFFFFFF"

definition pmemkv_config_get_int64 ::
    "pmemkv_config \<Rightarrow> string \<Rightarrow> status \<times> 64 word option" where
  "pmemkv_config_get_int64 config key =
     (case pmemkv_config_get config key of
        (st, None) \<Rightarrow> (st, None)
      | (st, Some (data, value_size, type)) \<Rightarrow>
          if st \<noteq> PMEMKV_STATUS_OK then (st, None)
          else if type = INT64 then (PMEMKV_STATUS_OK, Some (load_u64 data))
          else if type = UINT64 \<and> load_u64 data < int64_max
          then (PMEMKV_STATUS_OK, Some (load_u64 data))
          else (PMEMKV_STATUS_CONFIG_TYPE_ERROR, None))"

definition pmemkv_config_get_uint64 ::
    "pmemkv_config \<Rightarrow> string \<Rightarrow> status \<times> 64 word option" where
  "pmemkv_config_get_uint64 config key =
     (case pmemkv_config_get config key of
        (st, None) \<Rightarrow> (st, None)
      | (st, Some (data, value_size, type)) \<Rightarrow>
          if st \<noteq> PMEMKV_STATUS_OK then (st, None)
          else if type = UINT64 then (PMEMKV_STATUS_OK, Some (load_u64 data))
          else if type = INT64 \<and> 0 \<le>s load_u64 data
          then (PMEMKV_STATUS_OK, Some (load_u64 data))
          else (PMEMKV_STATUS_CONFIG_TYPE_ERROR, None))"

definition pmemkv_config_get_double ::
    "pmemkv_config \<Rightarrow> string \<Rightarrow> status \<times> 64 word option" where
  "pmemkv_config_get_double config key =
     (case pmemkv_config_get config key of
        (st, None) \<Rightarrow> (st, None)
      | (st, Some (data, value_size, type)) \<Rightarrow>
          if st \<noteq> PMEMKV_STATUS_OK then (st, None)
          else if type \<noteq> DOUBLE then (PMEMKV_STATUS_CONFIG_TYPE_ERROR, None)
          else (PMEMKV_STATUS_OK, Some (load_u64 data)))"

text \<open>
  \<^verbatim>\<open>pmemkv_config_get_string\<close> hands out the address of the stored bytes; the caller
  reads them as a C string.
\<close>

definition pmemkv_config_get_string ::
    "pmemkv_config \<Rightarrow> string \<Rightarrow> status \<times> byte list option" where
  "pmemkv_config_get_string config key =
     (case pmemkv_config_get config key of
        (st, None) \<Rightarrow> (st, None)
      | (st, Some (data, value_size, type)) \<Rightarrow>
          if st \<noteq> PMEMKV_STATUS_OK then (st, None)
          else if type \<noteq> STRING then (PMEMKV_STATUS_CONFIG_TYPE_ERROR, None)
          else (PMEMKV_STATUS_OK, Some data))"

subsection \<open>Destruction\<close>

text \<open>
  \<^verbatim>\<open>pmemkv_config_delete\<close> walks the table and calls the deleter of every \<^verbatim>\<open>OBJECT\<close>
  entry that has one, with the pointer read back from the entry's bytes.  What a
  deleter does when it runs is the callee's business; the function is modelled by the
  calls it makes, in the order of the walk.  The container is gone afterwards.
\<close>

type_synonym invocation = "fnptr \<times> pointer"

fun pmemkv_config_delete :: "pmemkv_config \<Rightarrow> invocation list" where
  "pmemkv_config_delete [] = []"
| "pmemkv_config_delete (item # umap) =
     (if e_type (snd item) = OBJECT then
        (let object = load_u64 (e_value (snd item)) in
         case e_deleter (snd item) of
           Some deleter \<Rightarrow> (deleter, object) # pmemkv_config_delete umap
         | None \<Rightarrow> pmemkv_config_delete umap)
      else pmemkv_config_delete umap)"

subsection \<open>The six typed entry points, taken together\<close>

text \<open>
  A value together with the typed put that stores it, so that a statement can range
  over "any typed put": \<open>typed_put\<close> calls the entry point of the value's type and
  \<open>reads_back\<close> says that the getter of the same type returns success and the value.
\<close>

datatype typed_value =
    Int64_value "64 word"
  | Uint64_value "64 word"
  | Double_value "64 word"
  | String_value string
  | Data_value "byte list"
  | Object_value pointer "fnptr option"

fun typed_put :: "pmemkv_config \<Rightarrow> string \<Rightarrow> typed_value \<Rightarrow> status \<times> pmemkv_config" where
  "typed_put config key (Int64_value v) = pmemkv_config_put_int64 config key v"
| "typed_put config key (Uint64_value v) = pmemkv_config_put_uint64 config key v"
| "typed_put config key (Double_value v) = pmemkv_config_put_double config key v"
| "typed_put config key (String_value s) = pmemkv_config_put_string config key s"
| "typed_put config key (Data_value d) = pmemkv_config_put_data config key d"
| "typed_put config key (Object_value p deleter) = pmemkv_config_put_object config key p deleter"

fun reads_back :: "pmemkv_config \<Rightarrow> string \<Rightarrow> typed_value \<Rightarrow> bool" where
  "reads_back config key (Int64_value v) =
     (pmemkv_config_get_int64 config key = (PMEMKV_STATUS_OK, Some v))"
| "reads_back config key (Uint64_value v) =
     (pmemkv_config_get_uint64 config key = (PMEMKV_STATUS_OK, Some v))"
| "reads_back config key (Double_value v) =
     (pmemkv_config_get_double config key = (PMEMKV_STATUS_OK, Some v))"
| "reads_back config key (String_value s) =
     (pmemkv_config_get_string config key = (PMEMKV_STATUS_OK, Some (bytes_of_string s @ [0])))"
| "reads_back config key (Data_value d) =
     (pmemkv_config_get_data config key = (PMEMKV_STATUS_OK, Some (d, length d)))"
| "reads_back config key (Object_value p deleter) =
     (pmemkv_config_get_object config key = (PMEMKV_STATUS_OK, Pointer_written p))"

section \<open>Failures and diagnostics\<close>

text \<open>
  What a \<^verbatim>\<open>try\<close> block can see of a callee: it returns, or it throws.  The handlers
  of this file tell two kinds of exception apart, those derived from
  \<^verbatim>\<open>std::exception\<close> (with their \<^verbatim>\<open>what()\<close> text) and all others.
\<close>

datatype exn = Std_exception string | Other_exception

datatype 'a outcome = Returns 'a | Throws exn

text \<open>
  Modelled from the spec: \<^verbatim>\<open>ERR()\<close> of \<^verbatim>\<open>out.h\<close>, which is not among the sources.
  The spec describes a single last-error slot that each message overwrites and that
  \<^verbatim>\<open>pmemkv_errormsg\<close> reads.  Every function below that can reach \<^verbatim>\<open>ERR()\<close> returns
  the messages it streamed there, oldest first; \<open>errormsg\<close> gives the slot afterwards.
\<close>

definition errormsg :: "string \<Rightarrow> string list \<Rightarrow> string" where
  "errormsg slot msgs = (if msgs = [] then slot else last msgs)"

section \<open>The query facade\<close>

text \<open>
  The engines (\<^verbatim>\<open>engine.h\<close>, \<^verbatim>\<open>engines/\<close>) are collaborators behind
  \<^verbatim>\<open>pmem::kv::engine_base\<close>; a facade function sees of an engine call only how it ends.
  The callbacks of \<^verbatim>\<open>pmemkv_get\<close> and of the range reads belong to the caller and run
  inside the engine.  A count is stored through \<^verbatim>\<open>*cnt\<close> by the engine: the first
  component of \<open>engine_count\<close> is what it stored there, if anything.
\<close>

type_synonym engine_call = "status outcome"
type_synonym engine_count = "nat option \<times> status outcome"

definition stored_count :: "nat option \<Rightarrow> nat \<Rightarrow> nat" where
  "stored_count w cnt = (case w of None \<Rightarrow> cnt | Some n \<Rightarrow> n)"

definition pmemkv_count_all :: "engine_count \<Rightarrow> nat \<Rightarrow> (status \<times> nat \<times> string list) outcome" where
  "pmemkv_count_all eng cnt =
     (case snd eng of
        Returns st \<Rightarrow> Returns (st, stored_count (fst eng) cnt, [])
      | Throws (Std_exception exc) \<Rightarrow>
          Returns (PMEMKV_STATUS_FAILED, stored_count (fst eng) cnt, [exc])
      | Throws Other_exception \<Rightarrow>
          Returns (PMEMKV_STATUS_FAILED, stored_count (fst eng) cnt, [''Unspecified failure'']))"

definition pmemkv_count_above :: "engine_count \<Rightarrow> nat \<Rightarrow> (status \<times> nat \<times> string list) outcome" where
  "pmemkv_count_above eng cnt =
     (case snd eng of
        Returns st \<Rightarrow> Returns (st, stored_count (fst eng) cnt, [])
      | Throws (Std_exception exc) \<Rightarrow>
          Returns (PMEMKV_STATUS_FAILED, stored_count (fst eng) cnt, [exc])
      | Throws Other_exception \<Rightarrow>
          Returns (PMEMKV_STATUS_FAILED, stored_count (fst eng) cnt, [''Unspecified failure'']))"

definition pmemkv_count_below :: "engine_count \<Rightarrow> nat \<Rightarrow> (status \<times> nat \<times> string list) outcome" where
  "pmemkv_count_below eng cnt =
     (case snd eng of
        Returns st \<Rightarrow> Returns (st, stored_count (fst eng) cnt, [])
      | Throws (Std_exception exc) \<Rightarrow>
          Returns (PMEMKV_STATUS_FAILED, stored_count (fst eng) cnt, [exc])
      | Throws Other_exception \<Rightarrow>
          Returns (PMEMKV_STATUS_FAILED, stored_count (fst eng) cnt, [''Unspecified failure'']))"

definition pmemkv_count_between :: "engine_count \<Rightarrow> nat \<Rightarrow> (status \<times> nat \<times> string list) outcome" where
  "pmemkv_count_between eng cnt =
     (case snd eng of
        Returns st \<Rightarrow> Returns (st, stored_count (fst eng) cnt, [])
      | Throws (Std_exception exc) \<Rightarrow>
          Returns (PMEMKV_STATUS_FAILED, stored_count (fst eng) cnt, [exc])
      | Throws Other_exception \<Rightarrow>
          Returns (PMEMKV_STATUS_FAILED, stored_count (fst eng) cnt, [''Unspecified failure'']))"

definition pmemkv_get_all :: "engine_call \<Rightarrow> (status \<times> string list) outcome" where
  "pmemkv_get_all eng =
     (case eng of
        Returns st \<Rightarrow> Returns (st, [])
      | Throws (Std_exception exc) \<Rightarrow> Returns (PMEMKV_STATUS_FAILED, [exc])
      | Throws Other_exception \<Rightarrow> Returns (PMEMKV_STATUS_FAILED, [''Unspecified failure'']))"

text \<open>\<^verbatim>\<open>pmemkv_get_above\<close> has the handler for \<^verbatim>\<open>std::exception\<close> and no \<^verbatim>\<open>catch (...)\<close>.\<close>

definition pmemkv_get_above :: "engine_call \<Rightarrow> (status \<times> string list) outcome" where
  "pmemkv_get_above eng =
     (case eng of
        Returns st \<Rightarrow> Returns (st, [])
      | Throws (Std_exception exc) \<Rightarrow> Returns (PMEMKV_STATUS_FAILED, [exc])
      | Throws Other_exception \<Rightarrow> Throws Other_exception)"

definition pmemkv_get_below :: "engine_call \<Rightarrow> (status \<times> string list) outcome" where
  "pmemkv_get_below eng =
     (case eng of
        Returns st \<Rightarrow> Returns (st, [])
      | Throws (Std_exception exc) \<Rightarrow> Returns (PMEMKV_STATUS_FAILED, [exc])
      | Throws Other_exception \<Rightarrow> Returns (PMEMKV_STATUS_FAILED, [''Unspecified failure'']))"

definition pmemkv_get_between :: "engine_call \<Rightarrow> (status \<times> string list) outcome" where
  "pmemkv_get_between eng =
     (case eng of
        Returns st \<Rightarrow> Returns (st, [])
      | Throws (Std_exception exc) \<Rightarrow> Returns (PMEMKV_STATUS_FAILED, [exc])
      | Throws Other_exception \<Rightarrow> Returns (PMEMKV_STATUS_FAILED, [''Unspecified failure'']))"

definition pmemkv_exists :: "engine_call \<Rightarrow> (status \<times> string list) outcome" where
  "pmemkv_exists eng =
     (case eng of
        Returns st \<Rightarrow> Returns (st, [])
      | Throws (Std_exception exc) \<Rightarrow> Returns (PMEMKV_STATUS_FAILED, [exc])
      | Throws Other_exception \<Rightarrow> Returns (PMEMKV_STATUS_FAILED, [''Unspecified failure'']))"

definition pmemkv_get :: "engine_call \<Rightarrow> (status \<times> string list) outcome" where
  "pmemkv_get eng =
     (case eng of
        Returns st \<Rightarrow> Returns (st, [])
      | Throws (Std_exception exc) \<Rightarrow> Returns (PMEMKV_STATUS_FAILED, [exc])
      | Throws Other_exception \<Rightarrow> Returns (PMEMKV_STATUS_FAILED, [''Unspecified failure'']))"

definition pmemkv_put :: "engine_call \<Rightarrow> (status \<times> string list) outcome" where
  "pmemkv_put eng =
     (case eng of
        Returns st \<Rightarrow> Returns (st, [])
      | Throws (Std_exception exc) \<Rightarrow> Returns (PMEMKV_STATUS_FAILED, [exc])
      | Throws Other_exception \<Rightarrow> Returns (PMEMKV_STATUS_FAILED, [''Unspecified failure'']))"

definition pmemkv_remove :: "engine_call \<Rightarrow> (status \<times> string list) outcome" where
  "pmemkv_remove eng =
     (case eng of
        Returns st \<Rightarrow> Returns (st, [])
      | Throws (Std_exception exc) \<Rightarrow> Returns (PMEMKV_STATUS_FAILED, [exc])
      | Throws Other_exception \<Rightarrow> Returns (PMEMKV_STATUS_FAILED, [''Unspecified failure'']))"

subsection \<open>The bounded copy\<close>

text \<open>
  The destination is the memory at \<^verbatim>\<open>buffer\<close> (\<open>None\<close> for \<^verbatim>\<open>nullptr\<close>), which the
  caller declares to hold at least \<^verbatim>\<open>buffer_size\<close> bytes; \<^verbatim>\<open>value_size\<close> is \<open>None\<close>
  for \<^verbatim>\<open>nullptr\<close> and otherwise the number the pointer refers to.  Sizes are
  \<^verbatim>\<open>size_t\<close>; they are only compared and copied here, so they are natural numbers.
  \<^verbatim>\<open>memset\<close> and \<^verbatim>\<open>memcpy\<close> overwrite the first \<open>n\<close> bytes of the destination.
\<close>

definition memset_zero :: "byte list \<Rightarrow> nat \<Rightarrow> byte list" where
  "memset_zero dst n = replicate n 0 @ drop n dst"

definition memcpy :: "byte list \<Rightarrow> byte list \<Rightarrow> nat \<Rightarrow> byte list" where
  "memcpy dst src n = take n src @ drop n dst"

record GetCopyCallbackContext =
  ctx_result :: status
  ctx_buffer_size :: nat
  ctx_buffer :: "byte list option"
  ctx_value_size :: "nat option"

definition get_copy_callback :: "byte list \<Rightarrow> GetCopyCallbackContext \<Rightarrow> GetCopyCallbackContext" where
  "get_copy_callback v c =
     (let vb = length v;
          c1 = (if ctx_value_size c \<noteq> None then c\<lparr>ctx_value_size := Some vb\<rparr> else c)
      in if vb < ctx_buffer_size c1
         then c1\<lparr>ctx_result := PMEMKV_STATUS_OK,
                 ctx_buffer := (case ctx_buffer c1 of
                                  None \<Rightarrow> None
                                | Some dst \<Rightarrow> Some (memcpy dst v vb))\<rparr>
         else c1\<lparr>ctx_result := PMEMKV_STATUS_FAILED\<rparr>)"

text \<open>
  The engine's \<^verbatim>\<open>get\<close>, as \<^verbatim>\<open>pmemkv_get_copy\<close> sees it: the values it hands to the
  callback, in order, and how the call ends.  An engine that keeps the contract of
  \<^verbatim>\<open>get\<close> calls back once with the value where the key is present and not at all where
  it is absent.
\<close>

type_synonym engine_get = "byte list list \<times> status outcome"

text \<open>The context handed to the engine: built, then the destination cleared.\<close>

definition get_copy_context ::
    "byte list option \<Rightarrow> nat \<Rightarrow> nat option \<Rightarrow> GetCopyCallbackContext" where
  "get_copy_context buffer buffer_size value_size =
     \<lparr>ctx_result = PMEMKV_STATUS_NOT_FOUND,
      ctx_buffer_size = buffer_size,
      ctx_buffer = (case buffer of
                      None \<Rightarrow> None
                    | Some dst \<Rightarrow> Some (memset_zero dst buffer_size)),
      ctx_value_size = value_size\<rparr>"

text \<open>
  \<^verbatim>\<open>pmemkv_get_copy\<close> returns the status, the destination and \<^verbatim>\<open>*value_size\<close>
  afterwards, and the messages.  The status the engine returns is not looked at.
\<close>

definition pmemkv_get_copy ::
    "engine_get \<Rightarrow> byte list option \<Rightarrow> nat \<Rightarrow> nat option \<Rightarrow>
     (status \<times> byte list option \<times> nat option \<times> string list) outcome" where
  "pmemkv_get_copy eng buffer buffer_size value_size =
     (let ctx = fold get_copy_callback (fst eng)
                  (get_copy_context buffer buffer_size value_size)
      in case snd eng of
           Returns st \<Rightarrow> Returns (ctx_result ctx, ctx_buffer ctx, ctx_value_size ctx, [])
         | Throws (Std_exception exc) \<Rightarrow>
             Returns (PMEMKV_STATUS_FAILED, ctx_buffer ctx, ctx_value_size ctx, [exc])
         | Throws Other_exception \<Rightarrow>
             Returns (PMEMKV_STATUS_FAILED, ctx_buffer ctx, ctx_value_size ctx,
                      [''Unspecified failure'']))"

text \<open>The destination as \<^verbatim>\<open>pmemkv_get_copy\<close> leaves it.\<close>

definition buffer_after ::
    "(status \<times> byte list option \<times> nat option \<times> string list) outcome \<Rightarrow> byte list option" where
  "buffer_after r = (case r of Returns (st, buffer, value_size, msgs) \<Rightarrow> buffer | Throws e \<Rightarrow> None)"

section \<open>Opening an engine\<close>









text \<open>Whether a text occurs in a message.\<close>

fun includes_text :: "string \<Rightarrow> string \<Rightarrow> bool" where
  "includes_text t [] = (t = [])"
| "includes_text t (c # cs) = (take (length t) (c # cs) = t \<or> includes_text t cs)"

section \<open>Reading a configuration from JSON\<close>

text \<open>
  The document that rapidjson's parser builds.  A number is kept in one of three
  ways: an integer that fits \<^verbatim>\<open>int64_t\<close> (the word read as signed), a non-negative
  integer that fits \<^verbatim>\<open>uint64_t\<close>, and any other number as a double (here its bit
  pattern).  \<^verbatim>\<open>IsInt64\<close> holds of the first kind and of the second up to
  \<^verbatim>\<open>INT64_MAX\<close>; \<^verbatim>\<open>IsDouble\<close> holds of the doubles only.  So an integer from
  \<open>2\<^sup>6\<^sup>3\<close> to \<open>2\<^sup>6\<^sup>4 - 1\<close> is a number that is neither.
\<close>

datatype number = Int64_number "64 word" | Uint64_number "64 word" | Double_number "64 word"

datatype json =
    JNull
  | JFalse
  | JTrue
  | JObject "(string \<times> json) list"
  | JArray "json list"
  | JString string
  | JNumber number

text \<open>
  \<^verbatim>\<open>GetType()\<close> returns rapidjson's \<^verbatim>\<open>Type\<close>: \<^verbatim>\<open>kNullType = 0\<close>, \<^verbatim>\<open>kFalseType = 1\<close>,
  \<^verbatim>\<open>kTrueType = 2\<close>, \<^verbatim>\<open>kObjectType = 3\<close>, \<^verbatim>\<open>kArrayType = 4\<close>, \<^verbatim>\<open>kStringType = 5\<close>,
  \<^verbatim>\<open>kNumberType = 6\<close>.
\<close>

fun GetType :: "json \<Rightarrow> nat" where
  "GetType JNull = 0"
| "GetType JFalse = 1"
| "GetType JTrue = 2"
| "GetType (JObject ms) = 3"
| "GetType (JArray vs) = 4"
| "GetType (JString s) = 5"
| "GetType (JNumber n) = 6"

definition kTypeNames :: "string list" where
  "kTypeNames = [''Null'', ''False'', ''True'', ''Object'', ''Array'', ''String'', ''Number'']"

fun IsString :: "json \<Rightarrow> bool" where
  "IsString (JString s) = True"
| "IsString v = False"

fun IsNumber :: "json \<Rightarrow> bool" where
  "IsNumber (JNumber n) = True"
| "IsNumber v = False"

fun IsInt64 :: "number \<Rightarrow> bool" where
  "IsInt64 (Int64_number i) = True"
| "IsInt64 (Uint64_number u) = (u \<le> int64_max)"
| "IsInt64 (Double_number d) = False"

text \<open>
  \<^verbatim>\<open>GetString()\<close> returns a \<^verbatim>\<open>const char *\<close>; \<^verbatim>\<open>std::string mkey(key)\<close> and
  \<^verbatim>\<open>char_traits<char>::length\<close> read it up to the first NUL, which a JSON string may
  contain.  \<^verbatim>\<open>HasMember\<close> and \<^verbatim>\<open>operator[]\<close> compare whole names and find the first
  member of that name.
\<close>

definition c_str :: "string \<Rightarrow> string" where
  "c_str s = takeWhile (\<lambda>c. c \<noteq> CHR 0x00) s"

definition FindMember :: "(string \<times> json) list \<Rightarrow> string \<Rightarrow> json option" where
  "FindMember doc name = map_of doc name"

text \<open>
  Sub-configurations live on the heap.  \<open>heap\<close> lists the configurations that
  \<^verbatim>\<open>pmemkv_config_from_json\<close> has allocated and that are still alive, by address;
  \<open>allocated\<close> counts its allocations, and the address of the \<open>n\<close>-th is \<open>addr n\<close>,
  where \<open>addr\<close> stands for the allocator.  \<open>errors\<close> are the messages streamed to
  \<^verbatim>\<open>ERR()\<close> so far.
\<close>

record ingest_state =
  errors :: "string list"
  heap :: "(pointer \<times> pmemkv_config) list"
  allocated :: nat

text \<open>
  Running deleter calls against the heap: a call of \<^verbatim>\<open>pmemkv_config_delete\<close> on the
  address of a live configuration makes the calls of that configuration's own
  destruction and frees it; other callbacks do not belong to this file and leave the
  heap alone.
\<close>

function release :: "(pointer \<times> pmemkv_config) list \<Rightarrow> invocation list \<Rightarrow> (pointer \<times> pmemkv_config) list" where
  "release h [] = h"
| "release h ((deleter, object) # calls) =
     (if deleter = Fn_pmemkv_config_delete then
        (case map_of h object of
           None \<Rightarrow> release h calls
         | Some config \<Rightarrow>
             release (filter (\<lambda>item. fst item \<noteq> object) h) (pmemkv_config_delete config @ calls))
      else release h calls)"
  by pat_completeness auto
termination
proof (relation "measures [\<lambda>(h, calls). length h, \<lambda>(h, calls). length calls]")
  show "wf (measures [\<lambda>(h, calls). length h, \<lambda>(h, calls). length (calls :: invocation list)])"
    by simp
next
  fix h :: "(pointer \<times> pmemkv_config) list" and deleter object and calls :: "invocation list"
  show "((h, calls), h, (deleter, object) # calls)
          \<in> measures [\<lambda>(h, calls). length h, \<lambda>(h, calls). length calls]"
    by simp
next
  fix h :: "(pointer \<times> pmemkv_config) list" and deleter object config
    and calls :: "invocation list"
  assume "map_of h object = Some config"
  then have "(object, config) \<in> set h"
    by (rule map_of_SomeD)
  then have "length (filter (\<lambda>item. fst item \<noteq> object) h) < length h"
    by (intro length_filter_less [of "(object, config)"]) simp_all
  then show "((filter (\<lambda>item. fst item \<noteq> object) h, pmemkv_config_delete config @ calls),
              h, (deleter, object) # calls)
          \<in> measures [\<lambda>(h, calls). length h, \<lambda>(h, calls). length calls]"
    by simp
next
  fix h :: "(pointer \<times> pmemkv_config) list" and deleter object and calls :: "invocation list"
  show "((h, calls), h, (deleter, object) # calls)
          \<in> measures [\<lambda>(h, calls). length h, \<lambda>(h, calls). length calls]"
    by simp
qed

text \<open>
  The body of \<^verbatim>\<open>pmemkv_config_from_json\<close> on a parsed document whose root is an object,
  given by its members in order.  For a member that is an object the source writes
  the member out as text and calls itself on that text; the parser gives back the same
  object, so the model calls itself on the member.  \<open>from_json_members\<close> is the loop;
  its first result is the \<^verbatim>\<open>what()\<close> of the \<^verbatim>\<open>std::runtime_error\<close> it threw, if it
  threw.  The branch for a failed \<^verbatim>\<open>pmemkv_config_new\<close> is left out, memory being
  available.
\<close>

fun pmemkv_config_from_json_doc ::
    "(nat \<Rightarrow> pointer) \<Rightarrow> ingest_state \<Rightarrow> pmemkv_config \<Rightarrow> (string \<times> json) list \<Rightarrow>
     status \<times> pmemkv_config \<times> ingest_state"
and from_json_members ::
    "(nat \<Rightarrow> pointer) \<Rightarrow> ingest_state \<Rightarrow> pmemkv_config \<Rightarrow> (string \<times> json) list \<Rightarrow>
     string option \<times> pmemkv_config \<times> ingest_state" where
  "pmemkv_config_from_json_doc addr st config doc =
     (case
        (if FindMember doc ''path'' \<noteq> None \<and> \<not> pred_option IsString (FindMember doc ''path'')
         then (Some '''path' in JSON is not a valid string'', config, st)
         else if FindMember doc ''size'' \<noteq> None
                 \<and> \<not> pred_option IsNumber (FindMember doc ''size'')
         then (Some '''size' in JSON is not a valid number'', config, st)
         else from_json_members addr st config doc)
      of
        (None, config', st') \<Rightarrow> (PMEMKV_STATUS_OK, config', st')
      | (Some exc, config', st') \<Rightarrow>
          (PMEMKV_STATUS_CONFIG_PARSING_ERROR, config', st'\<lparr>errors := errors st' @ [exc]\<rparr>))"
| "from_json_members addr st config [] = (None, config, st)"
| "from_json_members addr st config ((name, JString s) # rest) =
     (case pmemkv_config_put_string config (c_str name) (c_str s) of
        (status, config') \<Rightarrow>
          if status \<noteq> PMEMKV_STATUS_OK
          then (Some ''Inserting string to the config failed'', config', st)
          else from_json_members addr st config' rest)"
| "from_json_members addr st config ((name, JNumber (Int64_number i)) # rest) =
     (case pmemkv_config_put_int64 config (c_str name) i of
        (status, config') \<Rightarrow>
          if status \<noteq> PMEMKV_STATUS_OK
          then (Some ''Inserting int to the config failed'', config', st)
          else from_json_members addr st config' rest)"
| "from_json_members addr st config ((name, JNumber (Uint64_number u)) # rest) =
     (if IsInt64 (Uint64_number u) then
        (case pmemkv_config_put_int64 config (c_str name) u of
           (status, config') \<Rightarrow>
             if status \<noteq> PMEMKV_STATUS_OK
             then (Some ''Inserting int to the config failed'', config', st)
             else from_json_members addr st config' rest)
      else (Some (''Unsupported data type in JSON string: ''
                  @ kTypeNames ! GetType (JNumber (Uint64_number u))), config, st))"
| "from_json_members addr st config ((name, JNumber (Double_number d)) # rest) =
     (case pmemkv_config_put_double config (c_str name) d of
        (status, config') \<Rightarrow>
          if status \<noteq> PMEMKV_STATUS_OK
          then (Some ''Inserting double to the config failed'', config', st)
          else from_json_members addr st config' rest)"
| "from_json_members addr st config ((name, JTrue) # rest) =
     (case pmemkv_config_put_int64 config (c_str name) 1 of
        (status, config') \<Rightarrow>
          if status \<noteq> PMEMKV_STATUS_OK
          then (Some ''Inserting bool to the config failed'', config', st)
          else from_json_members addr st config' rest)"
| "from_json_members addr st config ((name, JFalse) # rest) =
     (case pmemkv_config_put_int64 config (c_str name) 0 of
        (status, config') \<Rightarrow>
          if status \<noteq> PMEMKV_STATUS_OK
          then (Some ''Inserting bool to the config failed'', config', st)
          else from_json_members addr st config' rest)"
| "from_json_members addr st config ((name, JObject ms) # rest) =
     (let sub_cfg = addr (allocated st);
          st1 = st\<lparr>allocated := Suc (allocated st)\<rparr>
      in case pmemkv_config_from_json_doc addr st1 pmemkv_config_new ms of
           (status, sub, st2) \<Rightarrow>
             let st3 = st2\<lparr>heap := (sub_cfg, sub) # heap st2\<rparr> in
             if status \<noteq> PMEMKV_STATUS_OK
             then (Some ''Cannot parse subconfig'', config,
                   st3\<lparr>heap := release (heap st3) [(Fn_pmemkv_config_delete, sub_cfg)]\<rparr>)
             else
               (case pmemkv_config_put_object config (c_str name) sub_cfg
                       (Some Fn_pmemkv_config_delete) of
                  (status', config') \<Rightarrow>
                    if status' \<noteq> PMEMKV_STATUS_OK
                    then (Some ''Inserting a new entry to the config failed'', config', st3)
                    else from_json_members addr st3 config' rest))"
| "from_json_members addr st config ((name, v) # rest) =
     (Some (''Unsupported data type in JSON string: '' @ kTypeNames ! GetType v), config, st)"

declare pmemkv_config_from_json_doc.simps [simp del]

text \<open>
  \<^verbatim>\<open>pmemkv_config_from_json\<close> on the outcome of \<^verbatim>\<open>doc.Parse(json)\<close>: \<open>None\<close> for a parse
  error, which is answered without a message, and otherwise the members of the root
  object.  A root that is not an object trips an assertion of rapidjson in
  \<^verbatim>\<open>HasMember\<close> and is not a case of this definition.
\<close>

definition pmemkv_config_from_json ::
    "(nat \<Rightarrow> pointer) \<Rightarrow> ingest_state \<Rightarrow> pmemkv_config \<Rightarrow> (string \<times> json) list option \<Rightarrow>
     status \<times> pmemkv_config \<times> ingest_state" where
  "pmemkv_config_from_json addr st config parsed =
     (case parsed of
        None \<Rightarrow> (PMEMKV_STATUS_CONFIG_PARSING_ERROR, config, st)
      | Some doc \<Rightarrow> pmemkv_config_from_json_doc addr st config doc)"

text \<open>
  The kinds of member that the loop rejects by itself (null, an array, and the number
  that is neither an \<^verbatim>\<open>int64\<close> nor a double), and the values that it takes in: scalars
  of the four accepted kinds, and objects that pass the two checks on \<^verbatim>\<open>path\<close> and
  \<^verbatim>\<open>size\<close> and hold only such values.
\<close>

fun unsupported :: "json \<Rightarrow> bool" where
  "unsupported JNull = True"
| "unsupported (JArray vs) = True"
| "unsupported (JNumber (Uint64_number u)) = (\<not> IsInt64 (Uint64_number u))"
| "unsupported v = False"

definition checks_pass :: "(string \<times> json) list \<Rightarrow> bool" where
  "checks_pass doc =
     (pred_option IsString (FindMember doc ''path'') \<and> pred_option IsNumber (FindMember doc ''size''))"

fun ingestible :: "json \<Rightarrow> bool"
and all_ingestible :: "(string \<times> json) list \<Rightarrow> bool" where
  "ingestible (JObject ms) = (checks_pass ms \<and> all_ingestible ms)"
| "ingestible v = (\<not> unsupported v)"
| "all_ingestible [] = True"
| "all_ingestible (m # ms) = (ingestible (snd m) \<and> all_ingestible ms)"

section \<open>The life of a container\<close>

text \<open>
  A client's calls on one container between \<^verbatim>\<open>pmemkv_config_new\<close> and
  \<^verbatim>\<open>pmemkv_config_delete\<close>: typed puts, and typed gets named by the type of the getter.
  \<open>perform\<close> gives the container after a call and the deleter calls made during it.
  None of the puts and getters above contains a call through a deleter, and the
  getters do not change the container; what a getter returns goes to the client.
\<close>

datatype config_call = Put string typed_value | Get string config_type

fun perform :: "config_call \<Rightarrow> pmemkv_config \<Rightarrow> pmemkv_config \<times> invocation list" where
  "perform (Put key v) config = (snd (typed_put config key v), [])"
| "perform (Get key type) config = (config, [])"

fun run :: "config_call list \<Rightarrow> pmemkv_config \<Rightarrow> pmemkv_config \<times> invocation list" where
  "run [] config = (config, [])"
| "run (call # calls) config =
     (case perform call config of
        (config', made) \<Rightarrow>
          (case run calls config' of (config'', made') \<Rightarrow> (config'', made @ made')))"

text \<open>
  What the claim says a sequence of calls leaves to be called at destruction: the
  deleter and pointer of each \<^verbatim>\<open>put_object\<close> with a deleter that stored its entry, that
  is, that was the first put under its key.  \<open>seen\<close> are the keys put so far.
\<close>

fun owed_from :: "string list \<Rightarrow> config_call list \<Rightarrow> invocation list" where
  "owed_from seen [] = []"
| "owed_from seen (Put key (Object_value p (Some deleter)) # calls) =
     (if key \<in> set seen then owed_from seen calls
      else (deleter, p) # owed_from (key # seen) calls)"
| "owed_from seen (Put key v # calls) =
     (if key \<in> set seen then owed_from seen calls else owed_from (key # seen) calls)"
| "owed_from seen (Get key type # calls) = owed_from seen calls"

section \<open>Facts about the byte representation\<close>

lemma split_low_byte:
  "(ucast (ucast w :: byte) :: 64 word) OR push_bit 8 (drop_bit 8 w) = w"
proof (rule bit_eqI)
  fix n
  show "bit ((ucast (ucast w :: byte) :: 64 word) OR push_bit 8 (drop_bit 8 w)) n = bit w n"
    using bit_imp_le_length [of w n] by (cases "n < 8") (auto simp: bit_simps)
qed

lemma u64_of_bytes_from:
  "k \<le> 8 \<Longrightarrow>
   u64_of_bytes (map (\<lambda>i. ucast (drop_bit (8 * i) w)) [k..<8]) = drop_bit (8 * k) w"
proof (induction "8 - k" arbitrary: k)
  case 0
  then have "k = 8" by simp
  then show ?case by simp
next
  case (Suc n)
  then have "k < 8" by simp
  then have up: "[k..<8] = k # [Suc k..<8]" by (simp add: upt_rec)
  from Suc have
    "u64_of_bytes (map (\<lambda>i. ucast (drop_bit (8 * i) w)) [Suc k..<8]) = drop_bit (8 * Suc k) w"
    by simp
  moreover have "drop_bit (8 * Suc k) w = drop_bit 8 (drop_bit (8 * k) w)"
    by (simp add: add.commute)
  ultimately show ?case
    unfolding up by (simp only: list.map u64_of_bytes.simps split_low_byte)
qed

lemma length_bytes_of_u64 [simp]: "length (bytes_of_u64 w) = 8"
  by (simp add: bytes_of_u64_def)

lemma u64_of_bytes_of_u64 [simp]: "u64_of_bytes (bytes_of_u64 w) = w"
  using u64_of_bytes_from [of 0 w] by (simp add: bytes_of_u64_def)

lemma load_u64_bytes_of_u64 [simp]: "load_u64 (bytes_of_u64 w) = w"
  by (simp add: load_u64_def)

lemma signed_take_bit_63:
  "signed_take_bit 63 (k::int) = take_bit 64 (k + 2 ^ 63) - 2 ^ 63"
  using signed_take_bit_eq_take_bit_shift [of 63 k] by simp

lemma sint_u64:
  "sint (v :: 64 word) = (if uint v < 2 ^ 63 then uint v else uint v - 2 ^ 64)"
proof -
  have b: "0 \<le> uint v" "uint v < 2 ^ 64"
    using uint_lt2p [of v] by simp_all
  have s: "sint v = (uint v + 2 ^ 63) mod 2 ^ 64 - 2 ^ 63"
    by (simp add: sint_uint signed_take_bit_63 take_bit_eq_mod)
  show ?thesis
  proof (cases "uint v < 2 ^ 63")
    case True
    then have "(uint v + 2 ^ 63) mod 2 ^ 64 = uint v + 2 ^ 63"
      using b by (intro mod_pos_pos_trivial) simp_all
    with True s show ?thesis by simp
  next
    case False
    then have "(uint v + 2 ^ 63 - 2 ^ 64) mod 2 ^ 64 = uint v + 2 ^ 63 - 2 ^ 64"
      using b by (intro mod_pos_pos_trivial) simp_all
    moreover have
      "(uint v + 2 ^ 63 - 2 ^ 64) mod 2 ^ 64 = (uint v + 2 ^ 63) mod (2 ^ 64 :: int)"
      by (rule minus_mod_self2)
    ultimately show ?thesis using False s by simp
  qed
qed

lemma nonneg_int64_iff: "(0 \<le>s (v :: 64 word)) = (uint v < 2 ^ 63)"
  using uint_lt2p [of v] by (simp add: word_sle_eq sint_u64)

lemma below_int64_max_iff: "(v < int64_max) = (uint v < 2 ^ 63 - 1)"
  by (simp add: int64_max_def word_less_def)

section \<open>The table\<close>

lemma umap_find_insert_absent:
  "umap_find config key = None \<Longrightarrow> umap_find (umap_insert config key e) key = Some e"
  by (simp add: umap_find_def umap_insert_def map_add_def)

lemma umap_insert_present:
  "umap_find config key = Some e' \<Longrightarrow> umap_insert config key e = config"
  by (simp add: umap_insert_def)

section \<open>Numeric conversions between the two integer types\<close>

text \<open>
  C4.  Let \<open>key\<close> be a key that the container does not hold yet.  After
  \<^verbatim>\<open>pmemkv_config_put_uint64\<close> has stored \<open>v\<close> under it, \<^verbatim>\<open>pmemkv_config_get_int64\<close>
  succeeds exactly when \<open>v < 2\<^sup>6\<^sup>3 - 1\<close> (so \<^verbatim>\<open>INT64_MAX\<close> itself is refused) and fails
  with \<^verbatim>\<open>CONFIG_TYPE_ERROR\<close> otherwise; after \<^verbatim>\<open>pmemkv_config_put_int64\<close> has stored
  \<open>v\<close>, \<^verbatim>\<open>pmemkv_config_get_uint64\<close> succeeds exactly when \<open>v \<ge> 0\<close> as a signed number
  and fails with \<^verbatim>\<open>CONFIG_TYPE_ERROR\<close> otherwise.  A successful read returns the stored
  word, and in both directions that word denotes the same number under the signed and
  the unsigned reading.
\<close>

theorem numeric_conversion_boundary:
  assumes "umap_find config key = None"
  shows "pmemkv_config_get_int64 (snd (pmemkv_config_put_uint64 config key v)) key =
           (if uint v < 2 ^ 63 - 1 then (PMEMKV_STATUS_OK, Some v)
            else (PMEMKV_STATUS_CONFIG_TYPE_ERROR, None))
       \<and> pmemkv_config_get_uint64 (snd (pmemkv_config_put_int64 config key v)) key =
           (if 0 \<le> sint v then (PMEMKV_STATUS_OK, Some v)
            else (PMEMKV_STATUS_CONFIG_TYPE_ERROR, None))
       \<and> (uint v < 2 ^ 63 - 1 \<longrightarrow> sint v = uint v)
       \<and> (0 \<le> sint v \<longrightarrow> uint v = sint v)"
proof -
  have u: "pmemkv_config_get_int64 (snd (pmemkv_config_put_uint64 config key v)) key =
           (if uint v < 2 ^ 63 - 1 then (PMEMKV_STATUS_OK, Some v)
            else (PMEMKV_STATUS_CONFIG_TYPE_ERROR, None))"
    using umap_find_insert_absent [OF assms]
    by (simp add: pmemkv_config_get_int64_def pmemkv_config_get_def
        pmemkv_config_put_uint64_def pmemkv_config_put_def below_int64_max_iff)
  have s: "pmemkv_config_get_uint64 (snd (pmemkv_config_put_int64 config key v)) key =
           (if 0 \<le> sint v then (PMEMKV_STATUS_OK, Some v)
            else (PMEMKV_STATUS_CONFIG_TYPE_ERROR, None))"
    using umap_find_insert_absent [OF assms]
    by (simp add: pmemkv_config_get_uint64_def pmemkv_config_get_def
        pmemkv_config_put_int64_def pmemkv_config_put_def word_sle_eq)
  have a: "uint v < 2 ^ 63 - 1 \<longrightarrow> sint v = uint v"
    by (simp add: sint_u64)
  have b: "0 \<le> sint v \<longrightarrow> uint v = sint v"
    using uint_lt2p [of v] by (simp add: sint_u64 split: if_splits)
  from u s a b show ?thesis by blast
qed

theorem numeric_conversion_boundary_witness:
  "umap_find pmemkv_config_new ''size'' = None
   \<and> pmemkv_config_get_int64 (snd (pmemkv_config_put_uint64 pmemkv_config_new ''size'' 5)) ''size''
       = (PMEMKV_STATUS_OK, Some 5)
   \<and> pmemkv_config_get_int64
        (snd (pmemkv_config_put_uint64 pmemkv_config_new ''size'' 0x7FFFFFFFFFFFFFFF)) ''size''
       = (PMEMKV_STATUS_CONFIG_TYPE_ERROR, None)
   \<and> pmemkv_config_get_uint64 (snd (pmemkv_config_put_int64 pmemkv_config_new ''size'' 5)) ''size''
       = (PMEMKV_STATUS_OK, Some 5)
   \<and> pmemkv_config_get_uint64 (snd (pmemkv_config_put_int64 pmemkv_config_new ''size'' (- 1))) ''size''
       = (PMEMKV_STATUS_CONFIG_TYPE_ERROR, None)
   \<and> uint (5 :: 64 word) < 2 ^ 63 - 1 \<and> sint (5 :: 64 word) = uint (5 :: 64 word)
   \<and> 0 \<le> sint (5 :: 64 word)"
proof -
  have h: "umap_find pmemkv_config_new ''size'' = None"
    by (simp add: umap_find_def pmemkv_config_new_def)
  show ?thesis
    using h numeric_conversion_boundary [OF h, of 5]
      numeric_conversion_boundary [OF h, of "0x7FFFFFFFFFFFFFFF"]
      numeric_conversion_boundary [OF h, of "- 1"]
    by simp
qed

section \<open>Inserting a key twice\<close>

lemmas typed_put_defs =
  pmemkv_config_put_def pmemkv_config_put_data_def pmemkv_config_put_object_def
  pmemkv_config_put_int64_def pmemkv_config_put_uint64_def pmemkv_config_put_double_def
  pmemkv_config_put_string_def

lemmas typed_get_defs =
  pmemkv_config_get_def pmemkv_config_get_data_def pmemkv_config_get_object_def
  pmemkv_config_get_int64_def pmemkv_config_get_uint64_def pmemkv_config_get_double_def
  pmemkv_config_get_string_def

lemma typed_put_status: "fst (typed_put config key a) = PMEMKV_STATUS_OK"
  by (cases a) (simp_all add: typed_put_defs)

lemma typed_put_present:
  "umap_find config key = Some e \<Longrightarrow> snd (typed_put config key b) = config"
  by (cases b) (simp_all add: typed_put_defs umap_insert_present)

lemma typed_put_finds:
  "umap_find config key = None \<Longrightarrow> \<exists>e. umap_find (snd (typed_put config key a)) key = Some e"
  by (cases a) (simp_all add: typed_put_defs umap_find_insert_absent)

lemma typed_put_reads_back:
  "umap_find config key = None \<Longrightarrow> reads_back (snd (typed_put config key a)) key a"
  by (cases a)
    (simp_all add: typed_put_defs typed_get_defs umap_find_insert_absent sizeof_pointer_def)

text \<open>
  C1, as the claim states it, fails: \<^verbatim>\<open>unordered_map::insert\<close> reports a duplicate in
  its return value, which \<^verbatim>\<open>pmemkv_config_put\<close> drops, so the second put of a key
  returns \<^verbatim>\<open>PMEMKV_STATUS_OK\<close>, not \<^verbatim>\<open>PMEMKV_STATUS_FAILED\<close>.
\<close>

theorem duplicate_put_not_failed:
  "fst (pmemkv_config_put_int64
          (snd (pmemkv_config_put_int64 pmemkv_config_new ''k'' 1)) ''k'' 2)
     \<noteq> PMEMKV_STATUS_FAILED"
  by (simp add: typed_put_defs)

text \<open>
  C1, amended.  For every container that does not hold \<open>key\<close> and every pair of typed
  values \<open>a\<close> and \<open>b\<close>: after \<open>a\<close> has been put under \<open>key\<close>, putting \<open>b\<close> under the same
  key returns \<^verbatim>\<open>PMEMKV_STATUS_OK\<close> and leaves the container as it was, and the getter
  of \<open>a\<close>'s type still returns \<open>a\<close>.
\<close>

theorem duplicate_put_keeps_first:
  assumes "umap_find config key = None"
  shows "fst (typed_put (snd (typed_put config key a)) key b) = PMEMKV_STATUS_OK
       \<and> snd (typed_put (snd (typed_put config key a)) key b) = snd (typed_put config key a)
       \<and> reads_back (snd (typed_put (snd (typed_put config key a)) key b)) key a"
proof -
  obtain e where "umap_find (snd (typed_put config key a)) key = Some e"
    using typed_put_finds [OF assms] by blast
  then have same: "snd (typed_put (snd (typed_put config key a)) key b) = snd (typed_put config key a)"
    by (rule typed_put_present)
  show ?thesis
    using same typed_put_reads_back [OF assms, of a] by (simp add: typed_put_status)
qed

theorem duplicate_put_keeps_first_witness:
  "umap_find pmemkv_config_new ''k'' = None
   \<and> fst (typed_put (snd (typed_put pmemkv_config_new ''k'' (Int64_value 1))) ''k''
            (Object_value 4096 (Some (Fn_callback 0)))) = PMEMKV_STATUS_OK
   \<and> pmemkv_config_get_int64
        (snd (typed_put (snd (typed_put pmemkv_config_new ''k'' (Int64_value 1))) ''k''
                (Object_value 4096 (Some (Fn_callback 0))))) ''k''
       = (PMEMKV_STATUS_OK, Some 1)"
proof -
  have h: "umap_find pmemkv_config_new ''k'' = None"
    by (simp add: umap_find_def pmemkv_config_new_def)
  show ?thesis
    using h duplicate_put_keeps_first
      [OF h, of "Int64_value 1" "Object_value 4096 (Some (Fn_callback 0))"]
    by auto
qed

section \<open>Reading an entry through the getter of another type\<close>

text \<open>
  The four getters that do look at the type answer every other type with
  \<^verbatim>\<open>PMEMKV_STATUS_CONFIG_TYPE_ERROR\<close>, the two integer types being read through each
  other's getter within the bounds above.
\<close>

lemma checked_getters_type_error:
  assumes "umap_find config key = Some e"
  shows "e_type e \<noteq> STRING \<Longrightarrow>
           pmemkv_config_get_string config key = (PMEMKV_STATUS_CONFIG_TYPE_ERROR, None)"
    and "e_type e \<noteq> DOUBLE \<Longrightarrow>
           pmemkv_config_get_double config key = (PMEMKV_STATUS_CONFIG_TYPE_ERROR, None)"
    and "e_type e \<noteq> INT64 \<Longrightarrow> e_type e \<noteq> UINT64 \<Longrightarrow>
           pmemkv_config_get_int64 config key = (PMEMKV_STATUS_CONFIG_TYPE_ERROR, None)"
    and "e_type e \<noteq> INT64 \<Longrightarrow> e_type e \<noteq> UINT64 \<Longrightarrow>
           pmemkv_config_get_uint64 config key = (PMEMKV_STATUS_CONFIG_TYPE_ERROR, None)"
  using assms by (simp_all add: typed_get_defs)

text \<open>
  C2.  \<^verbatim>\<open>pmemkv_config_get_data\<close> and \<^verbatim>\<open>pmemkv_config_get_object\<close> pass \<^verbatim>\<open>nullptr\<close> for the
  type and never compare it: on an \<^verbatim>\<open>INT64\<close> entry (eight bytes, the size of a pointer)
  both return \<^verbatim>\<open>PMEMKV_STATUS_OK\<close>, the first with the entry's bytes and the second with
  the integer handed out as a pointer, where the claim asks for
  \<^verbatim>\<open>PMEMKV_STATUS_CONFIG_TYPE_ERROR\<close>.
\<close>

theorem get_data_and_get_object_skip_type_check:
  "pmemkv_config_get_object (snd (pmemkv_config_put_int64 pmemkv_config_new ''k'' 42)) ''k''
     = (PMEMKV_STATUS_OK, Pointer_written 42)
   \<and> pmemkv_config_get_data (snd (pmemkv_config_put_int64 pmemkv_config_new ''k'' 42)) ''k''
     = (PMEMKV_STATUS_OK, Some (bytes_of_u64 42, 8))"
  by (simp add: typed_put_defs typed_get_defs umap_insert_def umap_find_def
      pmemkv_config_new_def sizeof_pointer_def)

section \<open>The bounded copy\<close>

lemma get_copy_context_simps [simp]:
  "ctx_result (get_copy_context buffer n vs) = PMEMKV_STATUS_NOT_FOUND"
  "ctx_buffer_size (get_copy_context buffer n vs) = n"
  "ctx_buffer (get_copy_context (Some dst) n vs) = Some (replicate n 0 @ drop n dst)"
  "ctx_buffer (get_copy_context None n vs) = None"
  "ctx_value_size (get_copy_context buffer n vs) = vs"
  by (simp_all add: get_copy_context_def memset_zero_def)

lemma callback_fits:
  "length v < ctx_buffer_size c \<Longrightarrow>
   ctx_result (get_copy_callback v c) = PMEMKV_STATUS_OK
   \<and> ctx_buffer (get_copy_callback v c) = map_option (\<lambda>dst. v @ drop (length v) dst) (ctx_buffer c)
   \<and> ctx_value_size (get_copy_callback v c) = map_option (\<lambda>_. length v) (ctx_value_size c)"
  by (cases "ctx_buffer c"; cases "ctx_value_size c")
    (simp_all add: get_copy_callback_def memcpy_def Let_def)

lemma callback_too_small:
  "\<not> length v < ctx_buffer_size c \<Longrightarrow>
   ctx_result (get_copy_callback v c) = PMEMKV_STATUS_FAILED
   \<and> ctx_buffer (get_copy_callback v c) = ctx_buffer c
   \<and> ctx_value_size (get_copy_callback v c) = map_option (\<lambda>_. length v) (ctx_value_size c)"
  by (cases "ctx_value_size c") (simp_all add: get_copy_callback_def Let_def)

lemma cleared_then_copied:
  "length v < n \<Longrightarrow>
   map_option (\<lambda>dst. v @ drop (length v) dst) (ctx_buffer (get_copy_context buffer n vs))
     = map_option (\<lambda>dst. v @ replicate (n - length v) 0 @ drop n dst) buffer"
  by (cases buffer) simp_all

lemma cleared:
  "ctx_buffer (get_copy_context buffer n vs)
     = map_option (\<lambda>dst. replicate n 0 @ drop n dst) buffer"
  by (cases buffer) simp_all

lemma buffer_after_get_copy:
  "buffer_after (pmemkv_get_copy eng buffer n vs)
     = ctx_buffer (fold get_copy_callback (fst eng) (get_copy_context buffer n vs))"
proof (cases "snd eng")
  case (Returns st)
  then show ?thesis by (simp add: pmemkv_get_copy_def buffer_after_def Let_def)
next
  case (Throws e)
  then show ?thesis by (cases e) (simp_all add: pmemkv_get_copy_def buffer_after_def Let_def)
qed

text \<open>
  C3, as the claim states it, fails: the destination is cleared before the engine is
  asked, so an absent key leaves a buffer of zeros, not the bytes that were there.
\<close>

theorem absent_key_buffer_overwritten:
  "pmemkv_get_copy ([], Returns PMEMKV_STATUS_NOT_FOUND) (Some [1, 2, 3]) 3 None
     = Returns (PMEMKV_STATUS_NOT_FOUND, Some [0, 0, 0], None, [])
   \<and> buffer_after (pmemkv_get_copy ([], Returns PMEMKV_STATUS_NOT_FOUND) (Some [1, 2, 3]) 3 None)
     \<noteq> Some [1, 2, 3]"
  by (simp add: pmemkv_get_copy_def buffer_after_def numeral_3_eq_3)

text \<open>
  C3, amended.  Where the engine does not call back (the key is absent) and returns,
  \<^verbatim>\<open>pmemkv_get_copy\<close> returns \<^verbatim>\<open>PMEMKV_STATUS_NOT_FOUND\<close>, leaves \<^verbatim>\<open>*value_size\<close> alone
  and writes no message; a destination that is not null has its first
  \<^verbatim>\<open>buffer_size\<close> bytes set to zero and the bytes behind them unchanged.
\<close>

theorem get_copy_absent:
  "pmemkv_get_copy ([], Returns st) buffer buffer_size value_size =
     Returns (PMEMKV_STATUS_NOT_FOUND,
              map_option (\<lambda>dst. replicate buffer_size 0 @ drop buffer_size dst) buffer,
              value_size, [])"
  by (simp add: pmemkv_get_copy_def cleared)

text \<open>
  C5.  Where the engine calls back once with a value \<open>v\<close> of length \<open>L\<close> (the key is
  found) and returns: if \<open>L < buffer_size\<close>, \<^verbatim>\<open>pmemkv_get_copy\<close> returns
  \<^verbatim>\<open>PMEMKV_STATUS_OK\<close>, a destination that is not null starts with the \<open>L\<close> bytes of
  \<open>v\<close>, and \<^verbatim>\<open>*value_size\<close> is \<open>L\<close> where the pointer is not null; if
  \<open>L \<ge> buffer_size\<close>, it returns \<^verbatim>\<open>PMEMKV_STATUS_FAILED\<close>, copies nothing and still
  sets \<^verbatim>\<open>*value_size\<close> to \<open>L\<close>.
\<close>

theorem get_copy_found:
  "pmemkv_get_copy ([v], Returns st) buffer buffer_size value_size =
     (if length v < buffer_size
      then Returns (PMEMKV_STATUS_OK,
                    map_option
                      (\<lambda>dst. v @ replicate (buffer_size - length v) 0 @ drop buffer_size dst)
                      buffer,
                    map_option (\<lambda>_. length v) value_size, [])
      else Returns (PMEMKV_STATUS_FAILED,
                    map_option (\<lambda>dst. replicate buffer_size 0 @ drop buffer_size dst) buffer,
                    map_option (\<lambda>_. length v) value_size, []))"
proof (cases "length v < buffer_size")
  case True
  then have "length v < ctx_buffer_size (get_copy_context buffer buffer_size value_size)"
    by simp
  from callback_fits [OF this] True show ?thesis
    by (simp add: pmemkv_get_copy_def cleared_then_copied)
next
  case False
  then have "\<not> length v < ctx_buffer_size (get_copy_context buffer buffer_size value_size)"
    by simp
  from callback_too_small [OF this] False show ?thesis
    by (simp add: pmemkv_get_copy_def cleared)
qed

text \<open>
  C10.  With a destination that is not null, the context that \<^verbatim>\<open>pmemkv_get_copy\<close>
  hands to the engine's \<^verbatim>\<open>get\<close> already has the first \<^verbatim>\<open>buffer_size\<close> bytes set to zero.
  So, however the engine call ends: where it did not call back (not found) and where it
  called back with a value that does not fit (too small), those bytes are all zero
  afterwards; where it called back with a value \<open>v\<close> that fits, they are \<open>v\<close> followed by
  zeros up to \<^verbatim>\<open>buffer_size\<close>.
\<close>

theorem get_copy_zero_fills:
  "ctx_buffer (get_copy_context (Some dst) buffer_size value_size)
     = Some (replicate buffer_size 0 @ drop buffer_size dst)
   \<and> buffer_after (pmemkv_get_copy ([], fin) (Some dst) buffer_size value_size)
     = Some (replicate buffer_size 0 @ drop buffer_size dst)
   \<and> buffer_after (pmemkv_get_copy ([v], fin) (Some dst) buffer_size value_size)
     = Some (if length v < buffer_size
             then v @ replicate (buffer_size - length v) 0 @ drop buffer_size dst
             else replicate buffer_size 0 @ drop buffer_size dst)"
proof -
  let ?c = "get_copy_context (Some dst) buffer_size value_size"
  have "ctx_buffer (get_copy_callback v ?c)
     = Some (if length v < buffer_size
             then v @ replicate (buffer_size - length v) 0 @ drop buffer_size dst
             else replicate buffer_size 0 @ drop buffer_size dst)"
    using callback_fits [of v ?c] callback_too_small [of v ?c]
    by (cases "length v < buffer_size") simp_all
  then show ?thesis
    by (simp add: buffer_after_get_copy)
qed

section \<open>Exceptions at the facade\<close>

text \<open>
  C6.  Twelve of the thirteen operations turn every exception of the engine into a
  status.  \<^verbatim>\<open>pmemkv_get_above\<close> does not: an exception that is not derived from
  \<^verbatim>\<open>std::exception\<close> leaves it as it came.
\<close>

theorem get_above_lets_exception_through:
  "pmemkv_get_above (Throws Other_exception) = Throws Other_exception
   \<and> pmemkv_put eng \<noteq> Throws e \<and> pmemkv_get eng \<noteq> Throws e
   \<and> pmemkv_get_copy eng_get buffer buffer_size value_size \<noteq> Throws e
   \<and> pmemkv_remove eng \<noteq> Throws e \<and> pmemkv_exists eng \<noteq> Throws e
   \<and> pmemkv_count_all eng_count cnt \<noteq> Throws e \<and> pmemkv_count_above eng_count cnt \<noteq> Throws e
   \<and> pmemkv_count_below eng_count cnt \<noteq> Throws e
   \<and> pmemkv_count_between eng_count cnt \<noteq> Throws e
   \<and> pmemkv_get_all eng \<noteq> Throws e \<and> pmemkv_get_below eng \<noteq> Throws e
   \<and> pmemkv_get_between eng \<noteq> Throws e"
  by (simp add: pmemkv_get_above_def pmemkv_put_def pmemkv_get_def pmemkv_get_copy_def
      pmemkv_remove_def pmemkv_exists_def pmemkv_count_all_def pmemkv_count_above_def
      pmemkv_count_below_def pmemkv_count_between_def pmemkv_get_all_def
      pmemkv_get_below_def pmemkv_get_between_def Let_def split: outcome.split exn.split)

section \<open>Opening an engine that the build does not know\<close>












section \<open>Members that JSON ingestion does not take\<close>

lemma put_results:
  "pmemkv_config_put_string c k s = (PMEMKV_STATUS_OK, snd (pmemkv_config_put_string c k s))"
  "pmemkv_config_put_int64 c k w = (PMEMKV_STATUS_OK, snd (pmemkv_config_put_int64 c k w))"
  "pmemkv_config_put_double c k w = (PMEMKV_STATUS_OK, snd (pmemkv_config_put_double c k w))"
  "pmemkv_config_put_object c k p d = (PMEMKV_STATUS_OK, snd (pmemkv_config_put_object c k p d))"
  by (simp_all add: typed_put_defs)

lemma members_string:
  "from_json_members addr st cfg ((n, JString s) # ms)
     = from_json_members addr st (snd (pmemkv_config_put_string cfg (c_str n) (c_str s))) ms"
  by (subst from_json_members.simps, subst put_results) simp

lemma members_int64:
  "from_json_members addr st cfg ((n, JNumber (Int64_number i)) # ms)
     = from_json_members addr st (snd (pmemkv_config_put_int64 cfg (c_str n) i)) ms"
  by (subst from_json_members.simps, subst put_results) simp

lemma members_uint64:
  "IsInt64 (Uint64_number u) \<Longrightarrow>
   from_json_members addr st cfg ((n, JNumber (Uint64_number u)) # ms)
     = from_json_members addr st (snd (pmemkv_config_put_int64 cfg (c_str n) u)) ms"
  by (subst from_json_members.simps, subst put_results) simp

lemma members_double:
  "from_json_members addr st cfg ((n, JNumber (Double_number d)) # ms)
     = from_json_members addr st (snd (pmemkv_config_put_double cfg (c_str n) d)) ms"
  by (subst from_json_members.simps, subst put_results) simp

lemma members_true:
  "from_json_members addr st cfg ((n, JTrue) # ms)
     = from_json_members addr st (snd (pmemkv_config_put_int64 cfg (c_str n) 1)) ms"
  by (subst from_json_members.simps, subst put_results) simp

lemma members_false:
  "from_json_members addr st cfg ((n, JFalse) # ms)
     = from_json_members addr st (snd (pmemkv_config_put_int64 cfg (c_str n) 0)) ms"
  by (subst from_json_members.simps, subst put_results) simp

lemma members_unsupported:
  "unsupported v \<Longrightarrow> from_json_members addr st cfg ((n, v) # ms)
     = (Some (''Unsupported data type in JSON string: '' @ kTypeNames ! GetType v), cfg, st)"
  by (cases v rule: unsupported.cases) simp_all

lemma members_object_ok:
  assumes "pmemkv_config_from_json_doc addr (st\<lparr>allocated := Suc (allocated st)\<rparr>)
             pmemkv_config_new sub = (PMEMKV_STATUS_OK, sub', st2)"
  shows "from_json_members addr st cfg ((n, JObject sub) # ms)
     = from_json_members addr (st2\<lparr>heap := (addr (allocated st), sub') # heap st2\<rparr>)
         (snd (pmemkv_config_put_object cfg (c_str n) (addr (allocated st))
                 (Some Fn_pmemkv_config_delete))) ms"
  by (subst from_json_members.simps, subst put_results) (simp add: assms Let_def)

lemma members_object_failed:
  assumes "pmemkv_config_from_json_doc addr (st\<lparr>allocated := Suc (allocated st)\<rparr>)
             pmemkv_config_new sub = (status, sub', st2)"
    and "status \<noteq> PMEMKV_STATUS_OK"
  shows "\<exists>st'. from_json_members addr st cfg ((n, JObject sub) # ms)
     = (Some (''Cannot parse subconfig''), cfg, st')"
  by (subst from_json_members.simps) (simp add: assms Let_def)

text \<open>A member that is not of an unsupported kind either throws or hands over to the rest.\<close>

lemma members_head:
  assumes "\<not> unsupported u"
  shows "(\<exists>cfg' st'. from_json_members addr st cfg ((n, u) # ms)
                         = (Some ''Cannot parse subconfig'', cfg', st'))
   \<or> (\<exists>cfg' st'. from_json_members addr st cfg ((n, u) # ms)
                         = from_json_members addr st' cfg' ms)"
proof (cases u)
  case JNull
  with assms show ?thesis by simp
next
  case JFalse
  then show ?thesis using members_false by blast
next
  case JTrue
  then show ?thesis using members_true by blast
next
  case (JObject sub)
  obtain status sub' st2 where
    r: "pmemkv_config_from_json_doc addr (st\<lparr>allocated := Suc (allocated st)\<rparr>)
          pmemkv_config_new sub = (status, sub', st2)"
    by (cases "pmemkv_config_from_json_doc addr (st\<lparr>allocated := Suc (allocated st)\<rparr>)
                 pmemkv_config_new sub")
  show ?thesis
  proof (cases "status = PMEMKV_STATUS_OK")
    case True
    with r JObject show ?thesis using members_object_ok by blast
  next
    case False
    from members_object_failed [OF r False] JObject show ?thesis by blast
  qed
next
  case (JArray vs)
  with assms show ?thesis by simp
next
  case (JString s)
  then show ?thesis using members_string by blast
next
  case (JNumber x)
  show ?thesis
  proof (cases x)
    case (Int64_number i)
    with JNumber show ?thesis using members_int64 by blast
  next
    case (Uint64_number w)
    with JNumber assms have "IsInt64 (Uint64_number w)" by simp
    with JNumber Uint64_number show ?thesis using members_uint64 by blast
  next
    case (Double_number d)
    with JNumber show ?thesis using members_double by blast
  qed
qed

lemma members_throw_on_unsupported:
  "(name, v) \<in> set ms \<Longrightarrow> unsupported v \<Longrightarrow>
   \<exists>msg cfg' st'. from_json_members addr st cfg ms = (Some msg, cfg', st')"
proof (induction ms arbitrary: st cfg)
  case Nil
  then show ?case by simp
next
  case (Cons m ms)
  obtain n u where m: "m = (n, u)" by (cases m)
  show ?case
  proof (cases "unsupported u")
    case True
    then show ?thesis
      unfolding m using members_unsupported [of u addr st cfg n ms] by simp
  next
    case False
    with Cons.prems m have "(name, v) \<in> set ms" by auto
    from Cons.IH [OF this Cons.prems(2)]
    have ih: "\<And>st cfg. \<exists>msg cfg' st'. from_json_members addr st cfg ms = (Some msg, cfg', st')" .
    show ?thesis
      unfolding m using members_head [OF False, of addr st cfg n ms] ih by metis
  qed
qed

lemma doc_throws:
  "\<exists>msg cfg' st'. from_json_members addr st cfg doc = (Some msg, cfg', st') \<Longrightarrow>
   fst (pmemkv_config_from_json_doc addr st cfg doc) = PMEMKV_STATUS_CONFIG_PARSING_ERROR"
  by (auto simp add: pmemkv_config_from_json_doc.simps split: prod.splits option.splits)

lemma includes_text_append: "includes_text t (p @ t)"
proof (induction p)
  case Nil
  show ?case by (cases t) simp_all
next
  case (Cons c p)
  then show ?case by simp
qed

lemma members_head_ok:
  assumes "\<not> unsupported u"
    and "\<And>sub st. u = JObject sub \<Longrightarrow>
           \<exists>sub' st'. pmemkv_config_from_json_doc addr st pmemkv_config_new sub
                         = (PMEMKV_STATUS_OK, sub', st') \<and> errors st' = errors st"
  shows "\<exists>cfg' st'. from_json_members addr st cfg ((n, u) # ms)
                       = from_json_members addr st' cfg' ms \<and> errors st' = errors st"
proof (cases u)
  case JNull
  with assms(1) show ?thesis by simp
next
  case JFalse
  then show ?thesis using members_false by blast
next
  case JTrue
  then show ?thesis using members_true by blast
next
  case (JObject sub)
  from assms(2) [OF JObject, of "st\<lparr>allocated := Suc (allocated st)\<rparr>"]
  obtain sub' st2 where
    r: "pmemkv_config_from_json_doc addr (st\<lparr>allocated := Suc (allocated st)\<rparr>)
          pmemkv_config_new sub = (PMEMKV_STATUS_OK, sub', st2)"
    and e: "errors st2 = errors st"
    by auto
  have "errors (st2\<lparr>heap := (addr (allocated st), sub') # heap st2\<rparr>) = errors st"
    using e by simp
  with members_object_ok [OF r, of cfg n ms] JObject show ?thesis by blast
next
  case (JArray vs)
  with assms(1) show ?thesis by simp
next
  case (JString s)
  then show ?thesis using members_string by blast
next
  case (JNumber x)
  show ?thesis
  proof (cases x)
    case (Int64_number i)
    with JNumber show ?thesis using members_int64 by blast
  next
    case (Uint64_number w)
    with JNumber assms(1) have "IsInt64 (Uint64_number w)" by simp
    with JNumber Uint64_number show ?thesis using members_uint64 by blast
  next
    case (Double_number d)
    with JNumber show ?thesis using members_double by blast
  qed
qed

lemma doc_path_fails:
  "\<not> pred_option IsString (FindMember doc ''path'') \<Longrightarrow>
   pmemkv_config_from_json_doc addr st cfg doc
     = (PMEMKV_STATUS_CONFIG_PARSING_ERROR, cfg,
        st\<lparr>errors := errors st @ ['''path' in JSON is not a valid string'']\<rparr>)"
  by (cases "FindMember doc ''path''") (simp_all add: pmemkv_config_from_json_doc.simps)

lemma doc_size_fails:
  "pred_option IsString (FindMember doc ''path'') \<Longrightarrow>
   \<not> pred_option IsNumber (FindMember doc ''size'') \<Longrightarrow>
   pmemkv_config_from_json_doc addr st cfg doc
     = (PMEMKV_STATUS_CONFIG_PARSING_ERROR, cfg,
        st\<lparr>errors := errors st @ ['''size' in JSON is not a valid number'']\<rparr>)"
  by (cases "FindMember doc ''size''") (simp_all add: pmemkv_config_from_json_doc.simps)

lemma doc_of_members_ok:
  assumes "checks_pass doc"
    and "from_json_members addr st cfg doc = (None, cfg', st')"
  shows "pmemkv_config_from_json_doc addr st cfg doc = (PMEMKV_STATUS_OK, cfg', st')"
  using assms by (simp add: pmemkv_config_from_json_doc.simps checks_pass_def)

lemma doc_of_members_thrown:
  assumes "checks_pass doc"
    and "from_json_members addr st cfg doc = (Some msg, cfg', st')"
  shows "pmemkv_config_from_json_doc addr st cfg doc
           = (PMEMKV_STATUS_CONFIG_PARSING_ERROR, cfg', st'\<lparr>errors := errors st' @ [msg]\<rparr>)"
  using assms by (simp add: pmemkv_config_from_json_doc.simps checks_pass_def)

lemma doc_checks_fail:
  assumes "\<not> checks_pass doc"
  shows "fst (pmemkv_config_from_json_doc addr st cfg doc) = PMEMKV_STATUS_CONFIG_PARSING_ERROR"
proof (cases "pred_option IsString (FindMember doc ''path'')")
  case False
  from doc_path_fails [OF this] show ?thesis by simp
next
  case True
  with assms have "\<not> pred_option IsNumber (FindMember doc ''size'')"
    by (simp add: checks_pass_def)
  from doc_size_fails [OF True this] show ?thesis by simp
qed

lemma ingest_ok:
  "ingestible v \<Longrightarrow> v = JObject sub \<Longrightarrow>
     \<exists>cfg' st'. pmemkv_config_from_json_doc addr st cfg sub = (PMEMKV_STATUS_OK, cfg', st')
        \<and> errors st' = errors st"
  "all_ingestible ms \<Longrightarrow>
     \<exists>cfg' st'. from_json_members addr st cfg ms = (None, cfg', st') \<and> errors st' = errors st"
proof (induction v and ms arbitrary: sub addr st cfg and addr st cfg
    rule: ingestible_all_ingestible.induct)
  case (1 ms)
  then have c: "checks_pass sub" and a: "all_ingestible ms" and s: "sub = ms" by simp_all
  from "1.IH" [OF a, of addr st cfg] obtain cfg' st'
    where "from_json_members addr st cfg ms = (None, cfg', st')" and "errors st' = errors st"
    by blast
  with doc_of_members_ok [OF c] s show ?case by blast
next
  case (4 m ms)
  obtain n u where m: "m = (n, u)" by (cases m)
  from "4.prems" m have iu: "ingestible u" and rest: "all_ingestible ms" by simp_all
  have nu: "\<not> unsupported u"
    using iu by (cases u rule: unsupported.cases) simp_all
  have "\<exists>cfg' st'. from_json_members addr st cfg ((n, u) # ms)
                       = from_json_members addr st' cfg' ms \<and> errors st' = errors st"
    using "4.IH"(1) iu m by (intro members_head_ok [OF nu]) simp
  then obtain cfg1 st1 where
    step: "from_json_members addr st cfg ((n, u) # ms) = from_json_members addr st1 cfg1 ms"
    and e1: "errors st1 = errors st"
    by blast
  from "4.IH"(2) [OF rest, of addr st1 cfg1] step e1 m show ?case by auto
qed simp_all

text \<open>Conversely, what is not ingestible is not ingested.\<close>

lemma ingest_fails:
  "\<not> ingestible v \<Longrightarrow> v = JObject sub \<Longrightarrow>
     fst (pmemkv_config_from_json_doc addr st cfg sub) = PMEMKV_STATUS_CONFIG_PARSING_ERROR"
  "\<not> all_ingestible ms \<Longrightarrow>
     \<exists>msg cfg' st'. from_json_members addr st cfg ms = (Some msg, cfg', st')"
proof (induction v and ms arbitrary: sub addr st cfg and addr st cfg
    rule: ingestible_all_ingestible.induct)
  case (1 ms)
  then have s: "sub = ms" and n: "\<not> checks_pass ms \<or> \<not> all_ingestible ms" by simp_all
  show ?case
  proof (cases "checks_pass ms")
    case False
    then show ?thesis unfolding s by (rule doc_checks_fail)
  next
    case True
    with n have "\<not> all_ingestible ms" by simp
    from "1.IH" [OF this, of addr st cfg] show ?thesis
      unfolding s by (rule doc_throws)
  qed
next
  case (4 m ms)
  obtain n u where m: "m = (n, u)" by (cases m)
  show ?case
  proof (cases "unsupported u")
    case True
    then show ?thesis
      unfolding m using members_unsupported [of u addr st cfg n ms] by simp
  next
    case False
    show ?thesis
    proof (cases "ingestible u")
      case True
      with "4.prems" m have "\<not> all_ingestible ms" by simp
      from "4.IH"(2) [OF this]
      have ih: "\<And>st cfg. \<exists>msg cfg' st'. from_json_members addr st cfg ms = (Some msg, cfg', st')" .
      show ?thesis
        unfolding m using members_head [OF False, of addr st cfg n ms] ih by metis
    next
      case ni: False
      then obtain sub where u: "u = JObject sub"
        using False by (cases u rule: unsupported.cases) simp_all
      have "fst (pmemkv_config_from_json_doc addr (st\<lparr>allocated := Suc (allocated st)\<rparr>)
                   pmemkv_config_new sub) = PMEMKV_STATUS_CONFIG_PARSING_ERROR"
        using "4.IH"(1) ni m u by simp
      then obtain sub' st2 where
        "pmemkv_config_from_json_doc addr (st\<lparr>allocated := Suc (allocated st)\<rparr>)
           pmemkv_config_new sub = (PMEMKV_STATUS_CONFIG_PARSING_ERROR, sub', st2)"
        by (metis prod.collapse)
      from members_object_failed [OF this, of cfg n ms] show ?thesis
        unfolding m u by auto
    qed
  qed
qed simp_all

text \<open>
  The loop throws at the first member that is not ingestible: for the type of the
  member where that is of an unsupported kind, and otherwise, the member being an
  object, for its sub-configuration.
\<close>

lemma members_first_rejected:
  "all_ingestible pre \<Longrightarrow> \<not> ingestible u \<Longrightarrow>
   \<exists>cfg' st'. from_json_members addr st cfg (pre @ (n, u) # post)
       = (Some (if unsupported u
                then ''Unsupported data type in JSON string: '' @ kTypeNames ! GetType u
                else ''Cannot parse subconfig''), cfg', st')"
proof (induction pre arbitrary: st cfg)
  case Nil
  show ?case
  proof (cases "unsupported u")
    case True
    then show ?thesis using members_unsupported [of u addr st cfg n post] by simp
  next
    case False
    with Nil.prems(2) obtain sub where u: "u = JObject sub"
      by (cases u rule: unsupported.cases) simp_all
    have "fst (pmemkv_config_from_json_doc addr (st\<lparr>allocated := Suc (allocated st)\<rparr>)
                 pmemkv_config_new sub) = PMEMKV_STATUS_CONFIG_PARSING_ERROR"
      using ingest_fails(1) [OF Nil.prems(2) u] .
    then obtain sub' st2 where
      "pmemkv_config_from_json_doc addr (st\<lparr>allocated := Suc (allocated st)\<rparr>)
         pmemkv_config_new sub = (PMEMKV_STATUS_CONFIG_PARSING_ERROR, sub', st2)"
      by (metis prod.collapse)
    from members_object_failed [OF this, of cfg n post] False show ?thesis
      unfolding u by auto
  qed
next
  case (Cons m pre)
  obtain k w where m: "m = (k, w)" by (cases m)
  from Cons.prems m have iw: "ingestible w" and rest: "all_ingestible pre" by simp_all
  have nw: "\<not> unsupported w"
    using iw by (cases w rule: unsupported.cases) simp_all
  have "\<exists>cfg' st'. from_json_members addr st cfg ((k, w) # (pre @ (n, u) # post))
                       = from_json_members addr st' cfg' (pre @ (n, u) # post)
                     \<and> errors st' = errors st"
    using ingest_ok(1) [OF iw] by (intro members_head_ok [OF nw]) simp
  then obtain cfg1 st1 where
    step: "from_json_members addr st cfg ((k, w) # (pre @ (n, u) # post))
             = from_json_members addr st1 cfg1 (pre @ (n, u) # post)"
    by blast
  from Cons.IH [OF rest Cons.prems(2), of st1 cfg1] step m show ?case by auto
qed

lemma first_rejected_exists:
  "\<not> all_ingestible ms \<Longrightarrow>
   \<exists>pre n u post. ms = pre @ (n, u) # post \<and> all_ingestible pre \<and> \<not> ingestible u"
proof (induction ms)
  case Nil
  then show ?case by simp
next
  case (Cons m ms)
  obtain k w where m: "m = (k, w)" by (cases m)
  show ?case
  proof (cases "ingestible w")
    case False
    have "m # ms = [] @ (k, w) # ms \<and> all_ingestible [] \<and> \<not> ingestible w"
      using False m by simp
    then show ?thesis by blast
  next
    case True
    with Cons.prems m have "\<not> all_ingestible ms" by simp
    from Cons.IH [OF this] obtain pre n u post where
      "ms = pre @ (n, u) # post" "all_ingestible pre" "\<not> ingestible u"
      by blast
    then have "m # ms = (m # pre) @ (n, u) # post \<and> all_ingestible (m # pre) \<and> \<not> ingestible u"
      using True m by simp
    then show ?thesis by blast
  qed
qed

lemma unsupported_member_not_ingestible:
  "(name, v) \<in> set ms \<Longrightarrow> unsupported v \<Longrightarrow> \<not> all_ingestible ms"
proof (induction ms)
  case Nil
  then show ?case by simp
next
  case (Cons m ms)
  have "unsupported v \<Longrightarrow> \<not> ingestible v"
    by (cases v rule: unsupported.cases) simp_all
  with Cons show ?case by auto
qed

lemma last_message:
  assumes "doc = pre @ (n, u) # post" and "all_ingestible pre" and "\<not> ingestible u"
  shows "errormsg slot (errors (snd (snd (pmemkv_config_from_json addr st config (Some doc)))))
     = (if \<not> pred_option IsString (FindMember doc ''path'')
        then '''path' in JSON is not a valid string''
        else if \<not> pred_option IsNumber (FindMember doc ''size'')
        then '''size' in JSON is not a valid number''
        else if unsupported u
        then ''Unsupported data type in JSON string: '' @ kTypeNames ! GetType u
        else ''Cannot parse subconfig'')"
proof (cases "pred_option IsString (FindMember doc ''path'')")
  case False
  then show ?thesis
    by (simp add: pmemkv_config_from_json_def doc_path_fails errormsg_def)
next
  case path: True
  show ?thesis
  proof (cases "pred_option IsNumber (FindMember doc ''size'')")
    case False
    with path show ?thesis
      by (simp add: pmemkv_config_from_json_def doc_size_fails errormsg_def)
  next
    case True
    with path have c: "checks_pass doc" by (simp add: checks_pass_def)
    from members_first_rejected [OF assms(2,3), of addr st config n post]
    obtain cfg' st' where "from_json_members addr st config doc
       = (Some (if unsupported u
                then ''Unsupported data type in JSON string: '' @ kTypeNames ! GetType u
                else ''Cannot parse subconfig''), cfg', st')"
      using assms(1) by blast
    from doc_of_members_thrown [OF c this] path True show ?thesis
      by (simp add: pmemkv_config_from_json_def errormsg_def)
  qed
qed

text \<open>
  C8, as the claim states it, fails in its second half: a member \<^verbatim>\<open>path\<close> that is
  null is caught by the check on \<^verbatim>\<open>path\<close> before the loop over the members, and the
  message of that check does not name the member's type.
\<close>

theorem null_path_message_lacks_type_name:
  "pmemkv_config_from_json word_of_nat \<lparr>errors = [], heap = [], allocated = 0\<rparr>
     pmemkv_config_new (Some [(''path'', JNull)])
   = (PMEMKV_STATUS_CONFIG_PARSING_ERROR, pmemkv_config_new,
      \<lparr>errors = ['''path' in JSON is not a valid string''], heap = [], allocated = 0\<rparr>)
   \<and> kTypeNames ! GetType JNull = ''Null''
   \<and> \<not> includes_text ''Null'' (errormsg [] ['''path' in JSON is not a valid string''])"
  by (simp add: pmemkv_config_from_json_def pmemkv_config_from_json_doc.simps FindMember_def
      errormsg_def kTypeNames_def)

text \<open>
  C8, amended.  Let the root object hold a member \<open>(name, v)\<close> whose value is null, an
  array or of the other unsupported kind.  Then \<^verbatim>\<open>pmemkv_config_from_json\<close> returns
  \<^verbatim>\<open>PMEMKV_STATUS_CONFIG_PARSING_ERROR\<close>, and the root has a first member \<open>(n, u)\<close> that
  is not ingestible, all members before it being so.  The last message is the first of
  these that applies: \<^verbatim>\<open>'path' in JSON is not a valid string\<close> where \<^verbatim>\<open>path\<close> is there
  and not a string; \<^verbatim>\<open>'size' in JSON is not a valid number\<close> where \<^verbatim>\<open>size\<close> is there and
  not a number; \<^verbatim>\<open>Unsupported data type in JSON string: \<close> followed by the type name of
  \<open>u\<close> where \<open>u\<close> is of an unsupported kind; and \<^verbatim>\<open>Cannot parse subconfig\<close> where \<open>u\<close>
  is an object that is not ingested.  In particular, where both checks pass and all
  members before \<open>(name, v)\<close> are ingestible, the message ends with the type name of
  \<open>v\<close>.
\<close>

theorem from_json_rejects_unsupported:
  assumes "(name, v) \<in> set doc" and "unsupported v"
  shows "fst (pmemkv_config_from_json addr st config (Some doc))
           = PMEMKV_STATUS_CONFIG_PARSING_ERROR
       \<and> (\<exists>pre n u post. doc = pre @ (n, u) # post \<and> all_ingestible pre \<and> \<not> ingestible u)
       \<and> (doc = pre @ (n, u) # post \<and> all_ingestible pre \<and> \<not> ingestible u \<longrightarrow>
            errormsg slot (errors (snd (snd (pmemkv_config_from_json addr st config (Some doc)))))
              = (if \<not> pred_option IsString (FindMember doc ''path'')
                 then '''path' in JSON is not a valid string''
                 else if \<not> pred_option IsNumber (FindMember doc ''size'')
                 then '''size' in JSON is not a valid number''
                 else if unsupported u
                 then ''Unsupported data type in JSON string: '' @ kTypeNames ! GetType u
                 else ''Cannot parse subconfig''))
       \<and> (doc = before @ (name, v) # after \<and> all_ingestible before \<and> checks_pass doc \<longrightarrow>
            errormsg slot (errors (snd (snd (pmemkv_config_from_json addr st config (Some doc)))))
              = ''Unsupported data type in JSON string: '' @ kTypeNames ! GetType v
            \<and> includes_text (kTypeNames ! GetType v)
                (errormsg slot
                   (errors (snd (snd (pmemkv_config_from_json addr st config (Some doc)))))))"
proof -
  let ?msg = "errormsg slot
                (errors (snd (snd (pmemkv_config_from_json addr st config (Some doc)))))"
  have nv: "\<not> ingestible v"
    using assms(2) by (cases v rule: unsupported.cases) simp_all
  from members_throw_on_unsupported [OF assms]
  have a: "fst (pmemkv_config_from_json addr st config (Some doc))
           = PMEMKV_STATUS_CONFIG_PARSING_ERROR"
    by (simp add: pmemkv_config_from_json_def doc_throws)
  have b: "\<exists>pre n u post. doc = pre @ (n, u) # post \<and> all_ingestible pre \<and> \<not> ingestible u"
    using first_rejected_exists [OF unsupported_member_not_ingestible [OF assms]] .
  have c: "doc = pre @ (n, u) # post \<and> all_ingestible pre \<and> \<not> ingestible u \<longrightarrow>
            ?msg = (if \<not> pred_option IsString (FindMember doc ''path'')
                 then '''path' in JSON is not a valid string''
                 else if \<not> pred_option IsNumber (FindMember doc ''size'')
                 then '''size' in JSON is not a valid number''
                 else if unsupported u
                 then ''Unsupported data type in JSON string: '' @ kTypeNames ! GetType u
                 else ''Cannot parse subconfig'')"
    using last_message [of doc pre n u post] by blast
  have d: "doc = before @ (name, v) # after \<and> all_ingestible before \<and> checks_pass doc \<longrightarrow>
            ?msg = ''Unsupported data type in JSON string: '' @ kTypeNames ! GetType v
            \<and> includes_text (kTypeNames ! GetType v) ?msg"
  proof (intro impI, elim conjE)
    assume doc: "doc = before @ (name, v) # after" and i: "all_ingestible before"
      and ch: "checks_pass doc"
    have eq: "?msg = ''Unsupported data type in JSON string: '' @ kTypeNames ! GetType v"
      using last_message [OF doc i nv, of slot addr st config] ch assms(2)
      by (simp add: checks_pass_def)
    show "?msg = ''Unsupported data type in JSON string: '' @ kTypeNames ! GetType v
            \<and> includes_text (kTypeNames ! GetType v) ?msg"
      unfolding eq by (intro conjI refl includes_text_append)
  qed
  from a b c d show ?thesis by (intro conjI)
qed

theorem from_json_rejects_unsupported_witness:
  "unsupported (JArray [JNumber (Int64_number 1), JNumber (Int64_number 2),
                        JNumber (Int64_number 3)])
   \<and> unsupported JNull
   \<and> all_ingestible [(''n'', JObject [(''b'', JNumber (Int64_number 1))])]
   \<and> \<not> ingestible (JObject [(''b'', JNull)])
   \<and> fst (pmemkv_config_from_json word_of_nat \<lparr>errors = [], heap = [], allocated = 0\<rparr>
             pmemkv_config_new
             (Some [(''a'', JArray [JNumber (Int64_number 1), JNumber (Int64_number 2),
                                    JNumber (Int64_number 3)])]))
       = PMEMKV_STATUS_CONFIG_PARSING_ERROR
   \<and> errormsg []
        (errors (snd (snd (pmemkv_config_from_json word_of_nat
             \<lparr>errors = [], heap = [], allocated = 0\<rparr> pmemkv_config_new
             (Some [(''a'', JArray [JNumber (Int64_number 1), JNumber (Int64_number 2),
                                    JNumber (Int64_number 3)])])))))
       = ''Unsupported data type in JSON string: Array''
   \<and> fst (pmemkv_config_from_json word_of_nat \<lparr>errors = [], heap = [], allocated = 0\<rparr>
             pmemkv_config_new
             (Some [(''n'', JObject [(''b'', JNumber (Int64_number 1))]), (''a'', JNull)]))
       = PMEMKV_STATUS_CONFIG_PARSING_ERROR
   \<and> errormsg []
        (errors (snd (snd (pmemkv_config_from_json word_of_nat
             \<lparr>errors = [], heap = [], allocated = 0\<rparr> pmemkv_config_new
             (Some [(''n'', JObject [(''b'', JNumber (Int64_number 1))]), (''a'', JNull)])))))
       = ''Unsupported data type in JSON string: Null''
   \<and> errormsg []
        (errors (snd (snd (pmemkv_config_from_json word_of_nat
             \<lparr>errors = [], heap = [], allocated = 0\<rparr> pmemkv_config_new
             (Some [(''n'', JObject [(''b'', JNull)]), (''a'', JNull)])))))
       = ''Cannot parse subconfig''
   \<and> errormsg []
        (errors (snd (snd (pmemkv_config_from_json word_of_nat
             \<lparr>errors = [], heap = [], allocated = 0\<rparr> pmemkv_config_new
             (Some [(''path'', JNull)])))))
       = '''path' in JSON is not a valid string''
   \<and> errormsg []
        (errors (snd (snd (pmemkv_config_from_json word_of_nat
             \<lparr>errors = [], heap = [], allocated = 0\<rparr> pmemkv_config_new
             (Some [(''size'', JNull)])))))
       = '''size' in JSON is not a valid number''"
proof -
  let ?arr = "JArray [JNumber (Int64_number 1), JNumber (Int64_number 2),
                      JNumber (Int64_number 3)]"
  let ?good = "(''n'', JObject [(''b'', JNumber (Int64_number 1))])"
  let ?bad = "JObject [(''b'', JNull)]"
  let ?st = "\<lparr>errors = [], heap = [], allocated = 0\<rparr>"
  have u1: "unsupported ?arr" and u2: "unsupported JNull"
    by simp_all
  have i2: "all_ingestible [?good]" and n3: "\<not> ingestible ?bad" and n0: "\<not> ingestible JNull"
    and n1: "\<not> ingestible ?arr" and i0: "all_ingestible []"
    by (simp_all add: checks_pass_def FindMember_def)
  have t: "kTypeNames ! GetType ?arr = ''Array''" "kTypeNames ! GetType JNull = ''Null''"
    by (simp_all add: kTypeNames_def)
  have m1: "(''a'', ?arr) \<in> set [(''a'', ?arr)]"
    and m2: "(''a'', JNull) \<in> set [?good, (''a'', JNull)]"
    and m3: "(''a'', JNull) \<in> set [(''n'', ?bad), (''a'', JNull)]"
    and m4: "(''path'', JNull) \<in> set [(''path'', JNull)]"
    and m5: "(''size'', JNull) \<in> set [(''size'', JNull)]"
    by simp_all
  note w1 = from_json_rejects_unsupported [OF m1 u1, of word_of_nat ?st pmemkv_config_new
      "[]" "''a''" ?arr "[]" "[]" "[]" "[]"]
  note w2 = from_json_rejects_unsupported [OF m2 u2, of word_of_nat ?st pmemkv_config_new
      "[?good]" "''a''" JNull "[]" "[]" "[?good]" "[]"]
  note w3 = from_json_rejects_unsupported [OF m3 u2, of word_of_nat ?st pmemkv_config_new
      "[]" "''n''" ?bad "[(''a'', JNull)]" "[]" "[]" "[]"]
  note w4 = from_json_rejects_unsupported [OF m4 u2, of word_of_nat ?st pmemkv_config_new
      "[]" "''path''" JNull "[]" "[]" "[]" "[]"]
  note w5 = from_json_rejects_unsupported [OF m5 u2, of word_of_nat ?st pmemkv_config_new
      "[]" "''size''" JNull "[]" "[]" "[]" "[]"]
  have s1: "fst (pmemkv_config_from_json word_of_nat ?st pmemkv_config_new (Some [(''a'', ?arr)]))
       = PMEMKV_STATUS_CONFIG_PARSING_ERROR"
    using w1 by (rule conjunct1)
  have s2: "fst (pmemkv_config_from_json word_of_nat ?st pmemkv_config_new
                  (Some [?good, (''a'', JNull)])) = PMEMKV_STATUS_CONFIG_PARSING_ERROR"
    using w2 by (rule conjunct1)
  have e1: "errormsg [] (errors (snd (snd (pmemkv_config_from_json word_of_nat ?st
                 pmemkv_config_new (Some [(''a'', ?arr)])))))
       = ''Unsupported data type in JSON string: Array''"
    using w1 [THEN conjunct2, THEN conjunct2, THEN conjunct1] u1 n1 t
    by (simp add: FindMember_def)
  have e2: "errormsg [] (errors (snd (snd (pmemkv_config_from_json word_of_nat ?st
                 pmemkv_config_new (Some [?good, (''a'', JNull)])))))
       = ''Unsupported data type in JSON string: Null''"
    using w2 [THEN conjunct2, THEN conjunct2, THEN conjunct1] i2 n0 t
    by (simp add: FindMember_def)
  have e3: "errormsg [] (errors (snd (snd (pmemkv_config_from_json word_of_nat ?st
                 pmemkv_config_new (Some [(''n'', ?bad), (''a'', JNull)])))))
       = ''Cannot parse subconfig''"
    using w3 [THEN conjunct2, THEN conjunct2, THEN conjunct1] n3
    by (simp add: FindMember_def)
  have e4: "errormsg [] (errors (snd (snd (pmemkv_config_from_json word_of_nat ?st
                 pmemkv_config_new (Some [(''path'', JNull)])))))
       = '''path' in JSON is not a valid string''"
    using w4 [THEN conjunct2, THEN conjunct2, THEN conjunct1] n0
    by (simp add: FindMember_def)
  have e5: "errormsg [] (errors (snd (snd (pmemkv_config_from_json word_of_nat ?st
                 pmemkv_config_new (Some [(''size'', JNull)])))))
       = '''size' in JSON is not a valid number''"
    using w5 [THEN conjunct2, THEN conjunct2, THEN conjunct1] n0
    by (simp add: FindMember_def)
  from u1 u2 i2 n3 s1 e1 s2 e2 e3 e4 e5 show ?thesis by (intro conjI)
qed

section \<open>Deleters are called at destruction, once\<close>

lemma delete_append:
  "pmemkv_config_delete (a @ b) = pmemkv_config_delete a @ pmemkv_config_delete b"
  by (induction a) (simp_all add: Let_def split: option.split)

lemma find_None_iff: "umap_find config key = None \<longleftrightarrow> key \<notin> fst ` set config"
  by (simp add: umap_find_def map_of_eq_None_iff)

lemma keys_insert: "fst ` set (umap_insert config key e) = insert key (fst ` set config)"
  by (auto simp: umap_insert_def find_None_iff)

lemma delete_insert:
  "pmemkv_config_delete (umap_insert config key e) =
     pmemkv_config_delete config
     @ (if key \<in> fst ` set config then [] else pmemkv_config_delete [(key, e)])"
  by (simp add: umap_insert_def find_None_iff delete_append)

lemma typed_put_keys: "fst ` set (snd (typed_put config key v)) = insert key (fst ` set config)"
  by (cases v) (simp_all add: typed_put_defs keys_insert)

lemma run_makes_no_call: "snd (run calls config) = []"
proof (induction calls arbitrary: config)
  case Nil
  then show ?case by simp
next
  case (Cons call calls)
  obtain config' where p: "perform call config = (config', [])"
    by (cases call) simp_all
  from Cons [of config'] show ?case
    by (simp add: p split: prod.splits)
qed

lemma run_Put: "fst (run (Put key v # calls) config) = fst (run calls (snd (typed_put config key v)))"
  by (simp split: prod.splits)

lemma run_Get: "fst (run (Get key type # calls) config) = fst (run calls config)"
  by (simp split: prod.splits)

lemma delete_after_put:
  "pmemkv_config_delete (snd (typed_put config key v)) =
     pmemkv_config_delete config
     @ (if key \<in> fst ` set config then []
        else case v of Object_value p (Some deleter) \<Rightarrow> [(deleter, p)] | _ \<Rightarrow> [])"
  by (cases v) (simp_all add: typed_put_defs delete_insert split: option.split)

lemma owed_from_Put:
  "owed_from seen (Put key v # calls) =
     (if key \<in> set seen then owed_from seen calls
      else (case v of Object_value p (Some deleter) \<Rightarrow> [(deleter, p)] | _ \<Rightarrow> [])
           @ owed_from (key # seen) calls)"
proof (cases v)
  case (Object_value p deleter)
  then show ?thesis by (cases deleter) simp_all
qed simp_all

lemma delete_after_run:
  "set seen = fst ` set config \<Longrightarrow>
   pmemkv_config_delete (fst (run calls config)) = pmemkv_config_delete config @ owed_from seen calls"
proof (induction calls arbitrary: seen config)
  case Nil
  then show ?case by simp
next
  case (Cons call calls)
  show ?case
  proof (cases call)
    case (Put key v)
    let ?c = "snd (typed_put config key v)"
    have keys: "fst ` set ?c = insert key (fst ` set config)"
      by (rule typed_put_keys)
    show ?thesis
    proof (cases "key \<in> set seen")
      case True
      then have "set seen = fst ` set ?c"
        unfolding keys using Cons.prems by auto
      from Cons.IH [OF this] have
        "pmemkv_config_delete (fst (run calls ?c)) = pmemkv_config_delete ?c @ owed_from seen calls" .
      moreover have "pmemkv_config_delete ?c = pmemkv_config_delete config"
        using True Cons.prems by (simp only: delete_after_put) simp
      ultimately show ?thesis
        using True unfolding Put by (simp only: run_Put owed_from_Put) simp
    next
      case False
      then have "set (key # seen) = fst ` set ?c"
        unfolding keys using Cons.prems by auto
      from Cons.IH [OF this] have
        "pmemkv_config_delete (fst (run calls ?c))
           = pmemkv_config_delete ?c @ owed_from (key # seen) calls" .
      moreover have "pmemkv_config_delete ?c
           = pmemkv_config_delete config
             @ (case v of Object_value p (Some deleter) \<Rightarrow> [(deleter, p)] | _ \<Rightarrow> [])"
        using False Cons.prems by (simp only: delete_after_put) simp
      ultimately show ?thesis
        using False unfolding Put by (simp only: run_Put owed_from_Put) simp
    qed
  next
    case (Get key type)
    from Cons.IH [OF Cons.prems] show ?thesis
      unfolding Get by (simp only: run_Get owed_from.simps)
  qed
qed

text \<open>
  C9.  Take any sequence of typed puts and typed gets on a new container.  No deleter
  is called while they run.  \<^verbatim>\<open>pmemkv_config_delete\<close> on the container they leave then
  calls, once each and in some order, exactly the deleters of the \<^verbatim>\<open>put_object\<close> calls
  that stored an entry with a deleter, each with the pointer that was stored with it;
  entries stored with a null deleter and entries of the other types add no call.
\<close>

theorem deleters_called_once_at_destruction:
  "snd (run calls pmemkv_config_new) = []
   \<and> mset (pmemkv_config_delete (fst (run calls pmemkv_config_new))) = mset (owed_from [] calls)"
  using delete_after_run [of "[]" pmemkv_config_new calls]
  by (simp add: run_makes_no_call pmemkv_config_new_def)


end
